theory Spec2Isabelle
  imports Complex_Main "HOL-Library.Sublist" "HOL-Library.Char_ord" "HOL-Library.List_Lexorder"
begin

section \<open>Python values\<close>

text \<open>
  The scene renderer computes with Python floats. They are modelled as real numbers:
  every arithmetic operation is exact, rounding is outside the model. An exception is a
  value of type \<open>error\<close>; a function that can raise returns \<open>error + 'a\<close>.
\<close>

datatype error =
    ZeroDivisionError
  | ValueError
  | TypeError
  | AttributeError
  | KeyError
  | NotImplementedError
  | AssertionError
  | IndexError

type_synonym point = "real \<times> real"

definition truediv :: "real \<Rightarrow> real \<Rightarrow> error + real" where
  \<comment> \<open>Python's \<open>a / b\<close> on numbers.\<close>
  "truediv a b = (if b = 0 then Inl ZeroDivisionError else Inr (a / b))"

subsection \<open>Strings\<close>

text \<open>
  Identifiers and instructions are ASCII strings. The functions below are the \<open>str\<close>
  methods that \<open>sort_rooms\<close> calls, restricted to ASCII: \<open>isspace\<close> holds of the ASCII
  whitespace characters and \<open>lower_char\<close> maps the letters A to Z.
\<close>

definition isspace :: "char \<Rightarrow> bool" where
  "isspace c = (c \<in> set [CHR 0x09, CHR 0x0A, CHR 0x0B, CHR 0x0C, CHR 0x0D,
                          CHR 0x1C, CHR 0x1D, CHR 0x1E, CHR 0x1F, CHR 0x20])"

definition lower_char :: "char \<Rightarrow> char" where
  "lower_char c =
     (case map_of (zip ''ABCDEFGHIJKLMNOPQRSTUVWXYZ'' ''abcdefghijklmnopqrstuvwxyz'') c of
        None \<Rightarrow> c | Some d \<Rightarrow> d)"

definition lower :: "string \<Rightarrow> string" where
  \<comment> \<open>\<open>s.lower()\<close>\<close>
  "lower s = map lower_char s"

fun split_words :: "string \<Rightarrow> string \<Rightarrow> string list" where
  "split_words cur [] = (if cur = [] then [] else [cur])"
| "split_words cur (c # cs) =
     (if isspace c then (if cur = [] then split_words [] cs else cur # split_words [] cs)
      else split_words (cur @ [c]) cs)"

definition split_whitespace :: "string \<Rightarrow> string list" where
  \<comment> \<open>\<open>s.split()\<close>: the maximal runs of non-whitespace characters\<close>
  "split_whitespace s = split_words [] s"

fun split_on :: "char \<Rightarrow> string \<Rightarrow> string \<Rightarrow> string list" where
  "split_on sep cur [] = [cur]"
| "split_on sep cur (c # cs) =
     (if c = sep then cur # split_on sep [] cs else split_on sep (cur @ [c]) cs)"

definition split_sep :: "char \<Rightarrow> string \<Rightarrow> string list" where
  \<comment> \<open>\<open>s.split(sep)\<close> for a separator of one character; the result is never empty\<close>
  "split_sep sep s = split_on sep [] s"

definition strip :: "char \<Rightarrow> string \<Rightarrow> string" where
  \<comment> \<open>\<open>s.strip(ch)\<close>: removes the character at both ends\<close>
  "strip ch s = dropWhile (\<lambda>c. c = ch) (rev (dropWhile (\<lambda>c. c = ch) (rev s)))"

fun join :: "string \<Rightarrow> string list \<Rightarrow> string" where
  \<comment> \<open>\<open>sep.join(parts)\<close>\<close>
  "join sep [] = []"
| "join sep [x] = x"
| "join sep (x # y # ys) = x @ sep @ join sep (y # ys)"

fun contains :: "string \<Rightarrow> string \<Rightarrow> bool" where
  \<comment> \<open>\<open>needle in haystack\<close> on strings\<close>
  "contains needle [] = (needle = [])"
| "contains needle (c # cs) =
     (take (length needle) (c # cs) = needle \<or> contains needle cs)"

section \<open>Entities\<close>

subsection \<open>Configuration\<close>

text \<open>The fields of \<open>config.object\<close>, \<open>config.room\<close> and \<open>config.scene\<close> that take part in
  the geometry. Colours, font sizes and line widths only reach the drawing backend.\<close>

record object_config =
  object_width :: real
  object_height :: real
  text_margin :: real

record room_config =
  min_width :: real
  min_width_per_object :: real
  left_pad :: real
  right_pad :: real
  bottom_pad :: real
  top_pad :: real
  horizontal_margin :: real
  vertical_margin :: real
  full_height :: real
  half_height :: real
  receptacle_horizontal_margin_fraction :: real
  object_horizontal_margin_fraction :: real
  objects_height :: real
  placeholder_height_if_full :: real
  placeholder_height_if_half :: real

subsection \<open>Object (object.py)\<close>

record obj =
  object_id :: string
  icon_path :: "string option"
  obj_config :: object_config
  obj_center_position :: "point option"
  is_on_floor :: bool

definition Object :: "object_config \<Rightarrow> string \<Rightarrow> string option \<Rightarrow> obj" where
  \<comment> \<open>\<open>Object.__init__\<close>; \<open>is_on_floor\<close> is only created by the scene, False stands for unset.\<close>
  "Object cfg oid path =
     \<lparr>object_id = oid, icon_path = path, obj_config = cfg,
      obj_center_position = None, is_on_floor = False\<rparr>"

definition obj_width :: "obj \<Rightarrow> real" where
  \<comment> \<open>the property \<open>Object.width\<close>\<close>
  "obj_width ob = object_width (obj_config ob)"

text \<open>
  What \<open>Object.plot\<close> reads from outside the sources: whether the icon file exists
  (\<open>os.path.exists\<close>), and the two tables of the module \<open>constants\<close>. The anchors that the
  receptacle collaborator derives from the position it is plotted at are parameters too.
\<close>

record env =
  icon_exists :: "string \<Rightarrow> bool"
  object_category_map :: "string \<rightharpoonup> string"
  category_color_map :: "string \<rightharpoonup> string"
  receptacle_top_anchor :: "string \<Rightarrow> point \<Rightarrow> point"
  receptacle_center_anchor :: "string \<Rightarrow> point \<Rightarrow> point"
  receptacle_top_item_anchor :: "string \<Rightarrow> point \<Rightarrow> point"

definition Object_plot :: "env \<Rightarrow> obj \<Rightarrow> point \<Rightarrow> error + obj" where
  \<comment> \<open>\<open>Object.plot\<close>: without an icon the fill colour is looked up in the two tables, and a
      missing key raises; then the centre anchor is set.\<close>
  "Object_plot ev ob position =
     (let centred = ob\<lparr>obj_center_position :=
                         Some (fst position + object_width (obj_config ob) / 2,
                               snd position + object_height (obj_config ob) / 2)\<rparr>
      in if (case icon_path ob of None \<Rightarrow> False | Some path \<Rightarrow> icon_exists ev path)
         then Inr centred
         else case object_category_map ev
                     (join ''_'' (butlast (split_sep CHR ''_'' (object_id ob)))) of
                None \<Rightarrow> Inl KeyError
              | Some category \<Rightarrow>
                  (case category_color_map ev category of
                     None \<Rightarrow> Inl KeyError
                   | Some colour \<Rightarrow> Inr centred))"

subsection \<open>Receptacle\<close>

text \<open>
  Modelled from the spec: the class Receptacle is not among the sources. The spec gives it
  an id, a \<open>width\<close>, the flags \<open>plot_top_placeholder\<close> and \<open>plot_center_placeholder\<close>, the
  anchors produced by its \<open>plot\<close>, and the cursor \<open>new_top_item_position\<close>. The model keeps
  the position that \<open>Room.plot\<close> hands to \<open>Receptacle.plot\<close>; the anchors derived from it
  belong to the collaborator and stay abstract (\<open>None\<close> before the first plot).
\<close>

record receptacle =
  receptacle_id :: string
  recep_width :: real
  plot_top_placeholder :: bool
  plot_center_placeholder :: bool
  plotted_at :: "point option"
  top_placeholder_position :: "point option"
  center_placeholder_position :: "point option"
  new_top_item_position :: "point option"

definition Receptacle_plot :: "env \<Rightarrow> receptacle \<Rightarrow> point \<Rightarrow> receptacle" where
  \<comment> \<open>Modelled from the spec: \<open>Receptacle.plot(canvas, position)\<close> produces the anchors of the
      receptacle; its width is a property of the receptacle and does not change.\<close>
  "Receptacle_plot ev rc position =
     rc\<lparr>plotted_at := Some position,
        top_placeholder_position := Some (receptacle_top_anchor ev (receptacle_id rc) position),
        center_placeholder_position :=
          Some (receptacle_center_anchor ev (receptacle_id rc) position),
        new_top_item_position :=
          Some (receptacle_top_item_anchor ev (receptacle_id rc) position)\<rparr>"

subsection \<open>Room (room.py)\<close>

record room =
  config :: room_config
  room_id :: string
  receptacles :: "receptacle list"
  objects :: "obj list option"
  in_proposition :: bool
  plot_placeholder :: bool
  object_to_recep :: "(string \<rightharpoonup> string) option"
  use_full_height :: bool
  room_width :: real
  width :: real
  room_height :: real
  height :: real
  center_position :: "point option"

definition has_objects :: "room \<Rightarrow> bool" where
  \<comment> \<open>the truth value of \<open>self.objects\<close>: neither None nor the empty list\<close>
  "has_objects r = (case objects r of None \<Rightarrow> False | Some os \<Rightarrow> os \<noteq> [])"

definition init_size :: "room \<Rightarrow> room" where
  "init_size r =
     (let cfg = config r;
          min_w = (case objects r of
                     None \<Rightarrow> min_width cfg
                   | Some os \<Rightarrow>
                       if os \<noteq> []
                       then max (min_width cfg)
                              (sum_list (map obj_width os) * min_width_per_object cfg)
                       else min_width cfg);
          total_receptacle_width = max min_w (sum_list (map recep_width (receptacles r)));
          rw = total_receptacle_width + left_pad cfg + right_pad cfg;
          rh = (if use_full_height r then full_height cfg else half_height cfg)
                 + bottom_pad cfg + top_pad cfg
      in r\<lparr>room_width := rw,
            width := rw + 2 * horizontal_margin cfg,
            room_height := rh,
            height := rh + 2 * vertical_margin cfg\<rparr>)"

definition Room ::
  "room_config \<Rightarrow> string \<Rightarrow> receptacle list \<Rightarrow> obj list option \<Rightarrow> bool \<Rightarrow> bool
     \<Rightarrow> (string \<rightharpoonup> string) option \<Rightarrow> room" where
  \<comment> \<open>\<open>Room.__init__\<close>; the sizes are filled in by \<open>init_size\<close>, \<open>center_position\<close> by \<open>plot\<close>.\<close>
  "Room cfg rid receps objs ufh in_prop o2r =
     init_size
       \<lparr>config = cfg, room_id = rid, receptacles = receps, objects = objs,
        in_proposition = in_prop, plot_placeholder = False, object_to_recep = o2r,
        use_full_height =
          (if (case objs of None \<Rightarrow> False | Some os \<Rightarrow> os \<noteq> []) then True else ufh),
        room_width = 0, width = 0, room_height = 0, height = 0,
        center_position = None\<rparr>"

definition find_object_by_id :: "room \<Rightarrow> string \<Rightarrow> obj option" where
  "find_object_by_id r oid =
     (case objects r of
        None \<Rightarrow> None
      | Some os \<Rightarrow> find (\<lambda>ob. object_id ob = oid) os)"

definition find_receptacle_by_id :: "room \<Rightarrow> string \<Rightarrow> receptacle option" where
  "find_receptacle_by_id r rid = find (\<lambda>rc. receptacle_id rc = rid) (receptacles r)"

definition mapped_receptacle :: "room \<Rightarrow> obj \<Rightarrow> string option" where
  \<comment> \<open>\<open>None\<close> when \<open>object_to_recep is None or obj.object_id not in object_to_recep.keys()\<close>,
      otherwise \<open>object_to_recep[obj.object_id]\<close>\<close>
  "mapped_receptacle r ob =
     (case object_to_recep r of None \<Rightarrow> None | Some m \<Rightarrow> m (object_id ob))"

definition unmapped_objects :: "room \<Rightarrow> obj list" where
  \<comment> \<open>the objects of the room that are laid out in its own row; [] when the room has none\<close>
  "unmapped_objects r =
     (case objects r of
        None \<Rightarrow> []
      | Some os \<Rightarrow> filter (\<lambda>ob. mapped_receptacle r ob = None) os)"

definition plot_room_width :: "room \<Rightarrow> real option \<Rightarrow> real" where
  \<comment> \<open>\<open>Room.plot\<close>, lines 148 to 185: the content width for this pass\<close>
  "plot_room_width r target_width =
     (let cfg = config r;
          min_w = (if has_objects r
                   then max (min_width cfg)
                          (sum_list (map obj_width (unmapped_objects r))
                             * min_width_per_object cfg)
                   else min_width cfg);
          minimum_room_width = max min_w (sum_list (map recep_width (receptacles r)));
          rw = minimum_room_width + left_pad cfg + right_pad cfg;
          extra_horizontal_pad =
            (case target_width of
               None \<Rightarrow> 0
             | Some tw \<Rightarrow> max 0 ((tw - rw - 2 * horizontal_margin cfg) / 2))
      in rw + 2 * extra_horizontal_pad)"

fun place_receptacles ::
  "env \<Rightarrow> real \<Rightarrow> real \<Rightarrow> real \<Rightarrow> receptacle list \<Rightarrow> receptacle list" where
  \<comment> \<open>the loop of lines 201 to 205: \<open>y\<close> is the common height, \<open>offset\<close> the running left edge\<close>
  "place_receptacles ev spacing y offset [] = []"
| "place_receptacles ev spacing y offset (rc # rcs) =
     (let rc' = Receptacle_plot ev rc (offset, y)
      in rc' # place_receptacles ev spacing y (offset + recep_width rc' + spacing) rcs)"

fun place_objects ::
  "env \<Rightarrow> room \<Rightarrow> real \<Rightarrow> real \<Rightarrow> real \<Rightarrow> obj list \<Rightarrow> error + obj list" where
  \<comment> \<open>the loop of lines 258 to 273 over the objects of room \<open>r\<close>, whose receptacles are
      already placed. An object mapped to a receptacle is plotted at the receptacle's cursor;
      the statement after that reads \<open>obj.text_position\<close>, an attribute that \<open>Object\<close> never
      sets, so this branch ends in AttributeError.\<close>
  "place_objects ev r spacing y offset [] = Inr []"
| "place_objects ev r spacing y offset (ob # obs) =
     (case mapped_receptacle r ob of
        None \<Rightarrow>
          (case Object_plot ev ob (offset, y) of
             Inl e \<Rightarrow> Inl e
           | Inr ob' \<Rightarrow>
               (case place_objects ev r spacing y (offset + obj_width ob' + spacing) obs of
                  Inl e \<Rightarrow> Inl e
                | Inr obs' \<Rightarrow> Inr (ob' # obs')))
      | Some rid \<Rightarrow>
          (case find_receptacle_by_id r rid of
             None \<Rightarrow> Inl AttributeError
           | Some current_receptacle \<Rightarrow>
               (case new_top_item_position current_receptacle of
                  None \<Rightarrow> Inl TypeError
                | Some obj_position \<Rightarrow>
                    (case Object_plot ev ob obj_position of
                       Inl e \<Rightarrow> Inl e
                     | Inr ob' \<Rightarrow> Inl AttributeError))))"

definition receptacle_row ::
  "env \<Rightarrow> room \<Rightarrow> point \<Rightarrow> real option \<Rightarrow> error + real \<times> receptacle list" where
  \<comment> \<open>\<open>Room.plot\<close>, lines 143 to 205: the spacing of the row of receptacles and the
      receptacles after each has been plotted at its place\<close>
  "receptacle_row ev r position target_width =
     (let cfg = config r;
          new_position = (fst position + horizontal_margin cfg,
                          snd position + vertical_margin cfg);
          rw = plot_room_width r target_width;
          new_receptacle_width = sum_list (map recep_width (receptacles r));
          num_receptacles = length (receptacles r)
      in case truediv
                (rw - receptacle_horizontal_margin_fraction cfg * 2 * rw - new_receptacle_width)
                (real (num_receptacles + 1)) of
           Inl e \<Rightarrow> Inl e
         | Inr spacing \<Rightarrow>
             (let offset = fst new_position + spacing
                             + receptacle_horizontal_margin_fraction cfg * rw
              in Inr (spacing,
                      place_receptacles ev spacing (snd new_position + bottom_pad cfg)
                        offset (receptacles r))))"

definition object_row :: "env \<Rightarrow> room \<Rightarrow> point \<Rightarrow> error + obj list" where
  \<comment> \<open>\<open>Room.plot\<close>, lines 235 to 273, for a room whose \<open>room_width\<close> and receptacles are
      those of this pass: the objects after each has been plotted\<close>
  "object_row ev r position =
     (let cfg = config r;
          new_position = (fst position + horizontal_margin cfg,
                          snd position + vertical_margin cfg);
          total_object_width = sum_list (map obj_width (unmapped_objects r));
          num_objects = length (unmapped_objects r)
      in case truediv
                (room_width r - object_horizontal_margin_fraction cfg * 2 * room_width r
                   - total_object_width)
                (real (num_objects + 1)) of
           Inl e \<Rightarrow> Inl e
         | Inr spacing \<Rightarrow>
             place_objects ev r spacing
               (snd new_position + bottom_pad cfg + full_height cfg * objects_height cfg)
               (fst new_position + object_horizontal_margin_fraction cfg * room_width r
                  + spacing)
               (case objects r of None \<Rightarrow> [] | Some obs \<Rightarrow> obs))"

definition Room_plot :: "env \<Rightarrow> room \<Rightarrow> point \<Rightarrow> real option \<Rightarrow> error + room" where
  \<comment> \<open>\<open>Room.plot(position, ax, target_width)\<close>: the state of the room after the call. The
      label, the background rectangle and the placeholder marker only reach the canvas.\<close>
  "Room_plot ev r position target_width =
     (let cfg = config r;
          new_position = (fst position + horizontal_margin cfg,
                          snd position + vertical_margin cfg);
          rw = plot_room_width r target_width
      in case receptacle_row ev r position target_width of
           Inl e \<Rightarrow> Inl e
         | Inr (spacing, placed) \<Rightarrow>
             (let r1 = r\<lparr>room_width := rw,
                          receptacles := placed,
                          width := rw + 2 * horizontal_margin cfg,
                          room_height := full_height cfg + bottom_pad cfg + top_pad cfg\<rparr>;
                  centre = (fst new_position + rw / 2,
                            snd new_position + bottom_pad cfg
                              + (if use_full_height r
                                 then placeholder_height_if_full cfg * full_height cfg
                                 else placeholder_height_if_half cfg * half_height cfg))
              in if has_objects r
                 then (case object_row ev r1 position of
                         Inl e \<Rightarrow> Inl e
                       | Inr obs' \<Rightarrow>
                           Inr (r1\<lparr>objects := Some obs',
                                   center_position := Some centre\<rparr>))
                 else (let rh = (if \<not> use_full_height r
                                 then half_height cfg + bottom_pad cfg + top_pad cfg
                                 else room_height r1)
                       in Inr (r1\<lparr>room_height := rh,
                                  height := rh + 2 * vertical_margin cfg,
                                  center_position := Some centre\<rparr>))))"

definition object_centers :: "room \<Rightarrow> point option list" where
  \<comment> \<open>the centre anchors of the objects of the room, in order\<close>
  "object_centers r =
     (case objects r of None \<Rightarrow> [] | Some obs \<Rightarrow> map obj_center_position obs)"

section \<open>Scene (scene.py)\<close>

subsection \<open>Room ordering\<close>

definition id_phrase :: "string \<Rightarrow> string" where
  \<comment> \<open>\<open>" ".join(ident.split("_")[:-1])\<close>\<close>
  "id_phrase ident = join '' '' (butlast (split_sep CHR ''_'' ident))"

definition instruction_keywords :: "string \<Rightarrow> string list" where
  \<comment> \<open>\<open>[word.lower().strip(".") for word in instruction.split()]\<close>\<close>
  "instruction_keywords instruction =
     map (\<lambda>word. strip CHR ''.'' (lower word)) (split_whitespace instruction)"

definition keyword_hits :: "string \<Rightarrow> string list \<Rightarrow> int" where
  \<comment> \<open>\<open>sum(phrase in keyword for keyword in keywords)\<close>: True counts 1\<close>
  "keyword_hits ident keywords =
     sum_list (map (\<lambda>keyword. if contains (id_phrase ident) keyword then 1 else 0) keywords)"

definition relevance_score :: "room \<Rightarrow> string list \<Rightarrow> int" where
  \<comment> \<open>the body of the loop over the rooms in \<open>sort_rooms\<close>\<close>
  "relevance_score r keywords =
     (let score = keyword_hits (room_id r) keywords;
          score = score
                  + sum_list (map (\<lambda>rc. keyword_hits (receptacle_id rc) keywords)
                               (receptacles r))
      in case objects r of
           None \<Rightarrow> score
         | Some os \<Rightarrow>
             if os \<noteq> []
             then score + sum_list (map (\<lambda>ob. keyword_hits (object_id ob) keywords) os)
             else score)"

definition sorted_reverse :: "('a \<Rightarrow> int) \<Rightarrow> 'a list \<Rightarrow> 'a list" where
  \<comment> \<open>\<open>sorted(xs, key=key, reverse=True)\<close>: the list is reversed, sorted stably in
      ascending order of the key and reversed again, so that elements with equal keys stay
      in their original order\<close>
  "sorted_reverse key xs = rev (sort_key key (rev xs))"

definition sort_rooms :: "room list \<Rightarrow> string \<Rightarrow> room list" where
  \<comment> \<open>The dictionary \<open>relevance_scores\<close> is keyed by the Room objects, which hash by
      identity; the rooms of the list are distinct objects, so its keys are the rooms in
      list order.\<close>
  "sort_rooms rooms instruction =
     (if instruction = [] then rooms
      else let keywords = instruction_keywords instruction
           in sorted_reverse (\<lambda>r. relevance_score r keywords) rooms)"

text \<open>
  The score as the specification words it: the number of pairs of an identifier of the room
  and a keyword such that the identifier's phrase is a substring of the keyword.
\<close>

definition entity_ids :: "room \<Rightarrow> string list" where
  "entity_ids r =
     room_id r # map receptacle_id (receptacles r)
       @ (case objects r of None \<Rightarrow> [] | Some os \<Rightarrow> map object_id os)"

definition substring_match_count :: "string list \<Rightarrow> string list \<Rightarrow> int" where
  "substring_match_count ids keywords =
     int (length (filter (\<lambda>(i, k). sublist (id_phrase i) k) (List.product ids keywords)))"

subsection \<open>Arrows\<close>

text \<open>
  \<open>add_arrow\<close> normalizes the tangent with numpy, whose division does not raise: a float64
  divided by zero is NaN or an infinity (with a warning). \<open>npfloat\<close> is the result of such
  an operation. The patches handed to the drawing backend are the result of \<open>add_arrow\<close>;
  line style and colour are left out.
\<close>

datatype npfloat = Finite real | PosInf | NegInf | NaN

definition np_divide :: "real \<Rightarrow> real \<Rightarrow> npfloat" where
  "np_divide x d =
     (if d \<noteq> 0 then Finite (x / d)
      else if x = 0 then NaN else if 0 < x then PosInf else NegInf)"

fun np_multiply :: "npfloat \<Rightarrow> real \<Rightarrow> npfloat" where
  "np_multiply (Finite a) c = Finite (a * c)"
| "np_multiply NaN c = NaN"
| "np_multiply PosInf c = (if c = 0 then NaN else if 0 < c then PosInf else NegInf)"
| "np_multiply NegInf c = (if c = 0 then NaN else if 0 < c then NegInf else PosInf)"

fun np_subtract :: "real \<Rightarrow> npfloat \<Rightarrow> npfloat" where
  "np_subtract x (Finite a) = Finite (x - a)"
| "np_subtract x NaN = NaN"
| "np_subtract x PosInf = NegInf"
| "np_subtract x NegInf = PosInf"

definition linalg_norm :: "point \<Rightarrow> real" where
  "linalg_norm v = sqrt ((fst v)\<^sup>2 + (snd v)\<^sup>2)"

record arrow_config =
  head_length :: real

datatype patch =
    PathPatch point point point
  | FancyArrow "npfloat \<times> npfloat" "npfloat \<times> npfloat"

definition control_point :: "point \<Rightarrow> point \<Rightarrow> point" where
  \<comment> \<open>\<open>ctrl_x\<close>, \<open>ctrl_y\<close>: the control point of the quadratic curve\<close>
  "control_point obj_loc room_loc =
     (let (x0, y0) = obj_loc;
          (x1, y1) = room_loc;
          dx = x1 - x0;
          dy = y1 - y0
      in ((x0 + x1) / 2 + dy / 2, (y0 + y1) / 2 + \<bar>dx\<bar> / 2))"

definition end_tangent :: "point \<Rightarrow> point \<Rightarrow> point \<Rightarrow> point" where
  \<comment> \<open>\<open>dx_dt\<close>, \<open>dy_dt\<close>: the derivative of the curve at \<open>t = 1\<close>\<close>
  "end_tangent obj_loc ctrl room_loc =
     (let (x0, y0) = obj_loc;
          (ctrl_x, ctrl_y) = ctrl;
          (x1, y1) = room_loc;
          t = 1
      in (2 * (1 - t) * (ctrl_x - x0) + 2 * t * (x1 - ctrl_x),
          2 * (1 - t) * (ctrl_y - y0) + 2 * t * (y1 - ctrl_y)))"

definition normalize_dir :: "point \<Rightarrow> npfloat \<times> npfloat" where
  \<comment> \<open>\<open>arrow_dir /= np.linalg.norm(arrow_dir)\<close>\<close>
  "normalize_dir v = (np_divide (fst v) (linalg_norm v), np_divide (snd v) (linalg_norm v))"

definition add_arrow :: "arrow_config \<Rightarrow> point \<Rightarrow> point \<Rightarrow> bool \<Rightarrow> patch list" where
  "add_arrow cfg obj_loc room_loc curved =
     (if curved
      then let ctrl = control_point obj_loc room_loc;
               arrow_dir = normalize_dir (end_tangent obj_loc ctrl room_loc);
               head_pos = (np_subtract (fst room_loc)
                             (np_multiply (fst arrow_dir) (head_length cfg)),
                           np_subtract (snd room_loc)
                             (np_multiply (snd arrow_dir) (head_length cfg)))
           in [PathPatch obj_loc ctrl room_loc,
               FancyArrow head_pos
                 (np_multiply (fst arrow_dir) (head_length cfg),
                  np_multiply (snd arrow_dir) (head_length cfg))]
      else [FancyArrow (Finite (fst obj_loc), Finite (snd obj_loc))
              (Finite (fst room_loc - fst obj_loc), Finite (snd room_loc - snd obj_loc))])"

subsection \<open>Width redistribution\<close>

definition redistribute_target_width_to_rooms :: "room list \<Rightarrow> real \<Rightarrow> error + real list" where
  "redistribute_target_width_to_rooms rooms_to_plot target_width =
     (let total_width = sum_list (map width rooms_to_plot)
      in case truediv target_width total_width of
           Inl e \<Rightarrow> Inl e
         | Inr redistribution_factor \<Rightarrow>
             Inr (map (\<lambda>r. width r * redistribution_factor) rooms_to_plot))"

subsection \<open>Binary64 arithmetic\<close>

text \<open>
  The coordinates and widths are Python floats and numpy \<open>float64\<close> values, that is IEEE 754
  binary64 numbers: the reals \<open>m * 2 ^ k\<close> with \<open>|m| < 2 ^ 53\<close> and \<open>- 1074 \<le> k\<close> below
  \<open>2 ^ 1024\<close>, the two infinities and NaN. Every operation returns the exact result rounded
  to the nearest such number, ties going to the even significand (\<open>round64\<close>); a result
  that rounds to \<open>2 ^ 1024\<close> or beyond is an infinity. The two zeros are not told apart:
  the only divisors that can be zero below are a norm (a square root, never \<open>-0.0\<close>) and
  the divisor of a Python division, which raises for either zero. An argument given as a
  real \<open>x\<close> enters the computation as \<open>Finite x\<close>, and is meant to be a binary64 number.
\<close>

definition round_half_even :: "real \<Rightarrow> int" where
  "round_half_even y =
     (let f = \<lfloor>y\<rfloor>
      in if y - of_int f < 1 / 2 then f
         else if 1 / 2 < y - of_int f then f + 1
         else if even f then f else f + 1)"

definition float_exponent :: "real \<Rightarrow> int" where
  "float_exponent x = max \<lfloor>log 2 \<bar>x\<bar>\<rfloor> (- 1022)"

definition ulp :: "real \<Rightarrow> real" where
  "ulp x = 2 powr (of_int (float_exponent x) - 52)"

definition overflow_threshold :: real where
  "overflow_threshold = 2 ^ 1024"

definition round64 :: "real \<Rightarrow> npfloat" where
  "round64 x =
     (if x = 0 then Finite 0
      else let y = of_int (round_half_even (x / ulp x)) * ulp x
           in if overflow_threshold \<le> \<bar>y\<bar> then (if 0 < x then PosInf else NegInf) else Finite y)"



fun f64_add :: "npfloat \<Rightarrow> npfloat \<Rightarrow> npfloat" where
  "f64_add (Finite a) (Finite b) = round64 (a + b)"
| "f64_add NaN y = NaN"
| "f64_add x NaN = NaN"
| "f64_add PosInf NegInf = NaN"
| "f64_add NegInf PosInf = NaN"
| "f64_add PosInf y = PosInf"
| "f64_add NegInf y = NegInf"
| "f64_add x PosInf = PosInf"
| "f64_add x NegInf = NegInf"


fun is_negative :: "npfloat \<Rightarrow> bool" where
  "is_negative (Finite a) = (a < 0)"
| "is_negative NegInf = True"
| "is_negative x = False"

definition signed_inf :: "bool \<Rightarrow> npfloat" where
  "signed_inf negative = (if negative then NegInf else PosInf)"

fun f64_mul :: "npfloat \<Rightarrow> npfloat \<Rightarrow> npfloat" where
  "f64_mul (Finite a) (Finite b) = round64 (a * b)"
| "f64_mul NaN y = NaN"
| "f64_mul x NaN = NaN"
| "f64_mul x y =
     (if x = Finite 0 \<or> y = Finite 0 then NaN
      else signed_inf (is_negative x \<noteq> is_negative y))"

fun f64_div :: "npfloat \<Rightarrow> npfloat \<Rightarrow> npfloat" where
  "f64_div (Finite a) (Finite b) =
     (if b \<noteq> 0 then round64 (a / b)
      else if a = 0 then NaN else signed_inf (a < 0))"
| "f64_div NaN y = NaN"
| "f64_div x NaN = NaN"
| "f64_div (Finite a) y = Finite 0"
| "f64_div x (Finite b) = signed_inf (is_negative x \<noteq> (b < 0))"
| "f64_div x y = NaN"


definition rounding_bound :: "real \<Rightarrow> real" where
  \<comment> \<open>half a unit in the last place of the binade of \<open>x\<close>, at least half the smallest subnormal\<close>
  "rounding_bound x = max (\<bar>x\<bar> / 2 ^ 53) (1 / 2 ^ 1075)"

text \<open>
  Python's \<open>/\<close> raises \<open>ZeroDivisionError\<close> for a zero divisor where numpy's returns NaN or an
  infinity. \<open>sum\<close> adds the items from left to right, starting from 0, rounding after every
  addition (CPython up to 3.11; later versions carry a compensation term, which is zero
  whenever every partial sum is exact).
\<close>

definition py_truediv :: "npfloat \<Rightarrow> npfloat \<Rightarrow> error + npfloat" where
  "py_truediv x y = (if y = Finite 0 then Inl ZeroDivisionError else Inr (f64_div x y))"

definition py_sum :: "real list \<Rightarrow> npfloat" where
  "py_sum xs = fold (\<lambda>x acc. f64_add acc (Finite x)) xs (Finite 0)"

text \<open>
  \<open>redistribute_target_width_to_rooms\<close> and \<open>add_arrow\<close> with every operation rounded. The
  definitions of the same name without the suffix, above, carry out the same operations in
  exact real arithmetic.
\<close>

definition redistribute_target_width_to_rooms64 ::
  "room list \<Rightarrow> real \<Rightarrow> error + npfloat list" where
  "redistribute_target_width_to_rooms64 rooms_to_plot tw =
     (let total_width = py_sum (map width rooms_to_plot)
      in case py_truediv (Finite tw) total_width of
           Inl e \<Rightarrow> Inl e
         | Inr redistribution_factor \<Rightarrow>
             Inr (map (\<lambda>r. f64_mul (Finite (width r)) redistribution_factor) rooms_to_plot))"








subsection \<open>Row packing\<close>

record scene_config =
  target_width :: "real option"
  arrow :: arrow_config

record scene =
  scene_cfg :: scene_config
  instruction :: string
  rooms :: "room list"
  scene_width :: real
  scene_height :: real

definition Scene :: "scene_config \<Rightarrow> room list \<Rightarrow> string \<Rightarrow> scene" where
  "Scene cfg rs instr =
     \<lparr>scene_cfg = cfg, instruction = instr, rooms = sort_rooms rs instr,
      scene_width = 0, scene_height = 0\<rparr>"

definition max_of :: "real list \<Rightarrow> error + real" where
  "max_of xs = (case xs of [] \<Rightarrow> Inl ValueError | x # rest \<Rightarrow> Inr (fold max rest x))"

definition rooms_have_objects :: "room list \<Rightarrow> nat list \<Rightarrow> bool" where
  "rooms_have_objects rs row = list_ex (\<lambda>i. has_objects (rs ! i)) row"

fun plot_row ::
  "env \<Rightarrow> room list \<Rightarrow> (nat \<times> real option) list \<Rightarrow> real \<Rightarrow> real
     \<Rightarrow> error + room list \<times> real" where
  "plot_row ev rs [] current_row_width current_row_height = Inr (rs, current_row_width)"
| "plot_row ev rs ((i, tw) # rest) current_row_width current_row_height =
     (case Room_plot ev (rs ! i) (current_row_width, current_row_height) tw of
        Inl e \<Rightarrow> Inl e
      | Inr r' \<Rightarrow>
          plot_row ev (rs[i := r']) rest (current_row_width + width r') current_row_height)"

definition flush_row_plain ::
  "env \<Rightarrow> room list \<Rightarrow> real \<Rightarrow> nat list \<Rightarrow> error + room list \<times> real" where
  "flush_row_plain ev rs current_row_height row =
     (case max_of (map (\<lambda>i. height (rs ! i)) row) of
        Inl e \<Rightarrow> Inl e
      | Inr max_room_height_for_row \<Rightarrow>
          (let flag = rooms_have_objects rs row;
               h = current_row_height - max_room_height_for_row;
               rs1 = fold (\<lambda>i rs. rs[i := (rs ! i)\<lparr>use_full_height := flag\<rparr>]) row rs
           in case plot_row ev rs1 (map (\<lambda>i. (i, None)) row) 0 h of
                Inl e \<Rightarrow> Inl e
              | Inr (rs2, w) \<Rightarrow> Inr (rs2, h)))"

definition flush_row_target ::
  "env \<Rightarrow> real \<Rightarrow> room list \<Rightarrow> real \<Rightarrow> real \<Rightarrow> nat list
     \<Rightarrow> error + room list \<times> real \<times> real" where
  "flush_row_target ev tw rs self_width current_row_height row =
     (let flag = rooms_have_objects rs row;
          rs1 = fold (\<lambda>i rs. rs[i := init_size ((rs ! i)\<lparr>use_full_height := flag\<rparr>)]) row rs
      in case max_of (map (\<lambda>i. height (rs1 ! i)) row) of
           Inl e \<Rightarrow> Inl e
         | Inr m \<Rightarrow>
             (let h = current_row_height - m
              in case redistribute_target_width_to_rooms (map (\<lambda>i. rs1 ! i) row) tw of
                   Inl e \<Rightarrow> Inl e
                 | Inr room_target_widths \<Rightarrow>
                     (case plot_row ev rs1 (zip row (map Some room_target_widths)) 0 h of
                        Inl e \<Rightarrow> Inl e
                      | Inr (rs2, current_row_width) \<Rightarrow>
                          Inr (rs2, max current_row_width self_width, h))))"

lemma flush_row_target_nonempty:
  "flush_row_target ev tw rs w h row = Inr res \<Longrightarrow> row \<noteq> []"
  by (auto simp: flush_row_target_def max_of_def Let_def)

lemma flush_row_plain_nonempty:
  "flush_row_plain ev rs h row = Inr res \<Longrightarrow> row \<noteq> []"
  by (auto simp: flush_row_plain_def max_of_def Let_def)

function pack_target ::
  "env \<Rightarrow> real \<Rightarrow> room list \<Rightarrow> real \<Rightarrow> real \<Rightarrow> nat list \<Rightarrow> real \<Rightarrow> nat list
     \<Rightarrow> error + room list \<times> real \<times> real" where
  "pack_target ev tw rs self_width h row cw [] = flush_row_target ev tw rs self_width h row"
| "pack_target ev tw rs self_width h row cw (i # todo) =
     (if width (rs ! i) + cw \<le> self_width
      then pack_target ev tw rs self_width h (row @ [i]) (cw + width (rs ! i)) todo
      else case flush_row_target ev tw rs self_width h row of
             Inl e \<Rightarrow> Inl e
           | Inr (rs', self_width', h') \<Rightarrow>
               pack_target ev tw rs' self_width' h' [] 0 (i # todo))"
  by pat_completeness auto
termination
  by (relation "measures [\<lambda>(ev, tw, rs, w, h, row, cw, todo). length todo,
                          \<lambda>(ev, tw, rs, w, h, row, cw, todo). length row]")
     (auto dest: flush_row_target_nonempty)

function pack_plain ::
  "env \<Rightarrow> room list \<Rightarrow> real \<Rightarrow> real \<Rightarrow> nat list \<Rightarrow> real \<Rightarrow> nat list
     \<Rightarrow> error + room list \<times> real \<times> nat list" where
  "pack_plain ev rs self_width h row cw [] = Inr (rs, h, row)"
| "pack_plain ev rs self_width h row cw (i # todo) =
     (if width (rs ! i) + cw \<le> self_width
      then pack_plain ev rs self_width h (row @ [i]) (cw + width (rs ! i)) todo
      else case flush_row_plain ev rs h row of
             Inl e \<Rightarrow> Inl e
           | Inr (rs', h') \<Rightarrow> pack_plain ev rs' self_width h' [] 0 (i # todo))"
  by pat_completeness auto
termination
  by (relation "measures [\<lambda>(ev, rs, w, h, row, cw, todo). length todo,
                          \<lambda>(ev, rs, w, h, row, cw, todo). length row]")
     (auto dest: flush_row_plain_nonempty)

definition plot_rooms_linear ::
  "env \<Rightarrow> scene \<Rightarrow> string list \<Rightarrow> real option \<Rightarrow> real \<Rightarrow> string list option
     \<Rightarrow> error + scene \<times> real \<times> real" where
  "plot_rooms_linear ev sc mentioned_rooms tw_opt height_offset all_mentioned_rooms =
     (let rs = rooms sc;
          indices = [0..<length rs]
      in case tw_opt of
           None \<Rightarrow>
             (let first_row = filter (\<lambda>i. room_id (rs ! i) \<in> set mentioned_rooms) indices
              in case plot_row ev rs (map (\<lambda>i. (i, None)) first_row) 0 0 of
                   Inl e \<Rightarrow> Inl e
                 | Inr (rs1, first_row_position) \<Rightarrow>
                     (case max_of (map (\<lambda>i. height (rs1 ! i)) first_row) of
                        Inl e \<Rightarrow> Inl e
                      | Inr first_row_height \<Rightarrow>
                          (case pack_plain ev rs1 first_row_position (0 + height_offset) [] 0
                                  (filter (\<lambda>i. room_id (rs1 ! i) \<notin> set mentioned_rooms)
                                     indices) of
                             Inl e \<Rightarrow> Inl e
                           | Inr (rs2, h, row) \<Rightarrow>
                               (case max_of (map (\<lambda>i. height (rs2 ! i)) row) of
                                  Inl e \<Rightarrow> Inl e
                                | Inr m \<Rightarrow>
                                    (case plot_row ev rs2 (map (\<lambda>i. (i, None)) row) 0 (h - m) of
                                       Inl e \<Rightarrow> Inl e
                                     | Inr (rs3, w) \<Rightarrow>
                                         Inr (sc\<lparr>rooms := rs3,
                                                 scene_width := first_row_position\<rparr>,
                                              h - m, first_row_height))))))
         | Some tw \<Rightarrow>
             (let named = (case all_mentioned_rooms of
                             None \<Rightarrow> mentioned_rooms | Some names \<Rightarrow> names);
                  all_rooms = filter (\<lambda>i. room_id (rs ! i) \<in> set named) indices
                              @ filter (\<lambda>i. room_id (rs ! i) \<notin> set named) indices;
                  rs1 = map init_size rs
              in case pack_target ev tw rs1 tw (0 + height_offset) [] 0 all_rooms of
                   Inl e \<Rightarrow> Inl e
                 | Inr (rs2, w, h) \<Rightarrow>
                     Inr (sc\<lparr>rooms := rs2, scene_width := w\<rparr>, h, 0)))"

subsection \<open>Propositions\<close>

record prop_args =
  object_names :: "string list option"
  receptacle_names :: "string list option"
  room_names :: "string list option"
  number :: "int option"
  entity_handles_a_names_and_types :: "(string \<times> string) list option"
  entity_handles_b_names_and_types :: "(string \<times> string) list option"

record propn =
  function_name :: string
  args :: prop_args

record constraint =
  ctype :: string
  toposort :: "int list list option"

definition getitem :: "'a option \<Rightarrow> error + 'a" where
  "getitem v = (case v of None \<Rightarrow> Inl KeyError | Some x \<Rightarrow> Inr x)"

definition py_index :: "'a list \<Rightarrow> int \<Rightarrow> error + 'a" where
  "py_index xs idx =
     (let n = int (length xs);
          j = (if idx < 0 then n + idx else idx)
      in if 0 \<le> j \<and> j < n then Inr (xs ! nat j) else Inl IndexError)"

record mentions =
  mentioned_objs :: "string list"
  on_floor_objs :: "string list"
  mentioned_receps :: "(string \<times> string) list"
  mentioned_rooms :: "string list"
  is_next_tos :: "((string \<times> string) list \<times> (string \<times> string) list \<times> int) list"

definition no_mentions :: mentions where
  "no_mentions = \<lparr>mentioned_objs = [], on_floor_objs = [], mentioned_receps = [],
                   mentioned_rooms = [], is_next_tos = []\<rparr>"

definition classify_prop :: "mentions \<Rightarrow> propn \<Rightarrow> error + mentions" where
  "classify_prop m prop =
     (let fn = function_name prop; a = args prop
      in if fn \<in> set [''is_on_top'', ''is_inside'']
         then (case getitem (object_names a) of
                 Inl e \<Rightarrow> Inl e
               | Inr objs \<Rightarrow>
                   (case getitem (receptacle_names a) of
                      Inl e \<Rightarrow> Inl e
                    | Inr receps \<Rightarrow>
                        Inr (m\<lparr>mentioned_objs := mentioned_objs m @ objs,
                               mentioned_receps :=
                                 mentioned_receps m
                                 @ (if fn = ''is_on_top''
                                    then map (\<lambda>recep_name. (''is_on_top'', recep_name)) receps
                                    else [])
                                 @ (if fn = ''is_inside''
                                    then map (\<lambda>recep_name. (''is_inside'', recep_name)) receps
                                    else [])\<rparr>)))
         else if fn = ''is_in_room''
         then (case getitem (object_names a) of
                 Inl e \<Rightarrow> Inl e
               | Inr objs \<Rightarrow>
                   (case getitem (room_names a) of
                      Inl e \<Rightarrow> Inl e
                    | Inr names \<Rightarrow>
                        Inr (m\<lparr>mentioned_objs := mentioned_objs m @ objs,
                               mentioned_rooms := mentioned_rooms m @ names\<rparr>)))
         else if fn = ''is_on_floor''
         then (case getitem (object_names a) of
                 Inl e \<Rightarrow> Inl e
               | Inr objs \<Rightarrow> Inr (m\<lparr>on_floor_objs := on_floor_objs m @ objs\<rparr>))
         else if fn = ''is_next_to''
         then (case getitem (entity_handles_a_names_and_types a) of
                 Inl e \<Rightarrow> Inl e
               | Inr ha \<Rightarrow>
                   (case getitem (entity_handles_b_names_and_types a) of
                      Inl e \<Rightarrow> Inl e
                    | Inr hb \<Rightarrow>
                        (case getitem (number a) of
                           Inl e \<Rightarrow> Inl e
                         | Inr n \<Rightarrow> Inr (m\<lparr>is_next_tos := is_next_tos m @ [(ha, hb, n)]\<rparr>))))
         else Inl NotImplementedError)"

fun classify :: "mentions \<Rightarrow> propn list \<Rightarrow> error + mentions" where
  "classify m [] = Inr m"
| "classify m (prop # props) =
     (case classify_prop m prop of Inl e \<Rightarrow> Inl e | Inr m' \<Rightarrow> classify m' props)"

definition prepass_prop :: "mentions \<Rightarrow> propn \<Rightarrow> error + mentions" where
  "prepass_prop m prop =
     (let fn = function_name prop; a = args prop
      in if fn \<in> set [''is_on_top'', ''is_inside'']
         then (case getitem (object_names a) of
                 Inl e \<Rightarrow> Inl e
               | Inr objs \<Rightarrow>
                   (case getitem (receptacle_names a) of
                      Inl e \<Rightarrow> Inl e
                    | Inr receps \<Rightarrow>
                        Inr (m\<lparr>mentioned_objs := mentioned_objs m @ objs,
                               mentioned_receps :=
                                 mentioned_receps m
                                 @ (if fn = ''is_on_top''
                                    then map (\<lambda>recep_name. (''is_on_top'', recep_name)) receps
                                    else [])
                                 @ (if fn = ''is_inside''
                                    then map (\<lambda>recep_name. (''is_inside'', recep_name)) receps
                                    else [])\<rparr>)))
         else if fn = ''is_in_room''
         then (case getitem (object_names a) of
                 Inl e \<Rightarrow> Inl e
               | Inr objs \<Rightarrow>
                   (case getitem (room_names a) of
                      Inl e \<Rightarrow> Inl e
                    | Inr names \<Rightarrow>
                        Inr (m\<lparr>mentioned_objs := mentioned_objs m @ objs,
                               mentioned_rooms := mentioned_rooms m @ names\<rparr>)))
         else if fn = ''is_on_floor''
         then (case getitem (object_names a) of
                 Inl e \<Rightarrow> Inl e
               | Inr objs \<Rightarrow> Inr (m\<lparr>mentioned_objs := mentioned_objs m @ objs\<rparr>))
         else Inl NotImplementedError)"

fun prepass :: "mentions \<Rightarrow> propn list \<Rightarrow> error + mentions" where
  "prepass m [] = Inr m"
| "prepass m (prop # props) =
     (case prepass_prop m prop of Inl e \<Rightarrow> Inl e | Inr m' \<Rightarrow> prepass m' props)"

subsection \<open>Resolution of the mentioned entities\<close>

definition add_room :: "string \<Rightarrow> string list \<Rightarrow> string list" where
  \<comment> \<open>\<open>if room.room_id not in mentioned_rooms: mentioned_rooms += [room.room_id]\<close>\<close>
  "add_room rid names = (if rid \<notin> set names then names @ [rid] else names)"

fun mark_on_floor :: "string \<Rightarrow> obj list \<Rightarrow> obj list" where
  \<comment> \<open>\<open>found_object.is_on_floor = True\<close> on the object that \<open>find_object_by_id\<close> returns\<close>
  "mark_on_floor oid [] = []"
| "mark_on_floor oid (ob # obs) =
     (if object_id ob = oid then ob\<lparr>is_on_floor := True\<rparr> # obs
      else ob # mark_on_floor oid obs)"

fun mark_receptacle ::
  "(receptacle \<Rightarrow> receptacle) \<Rightarrow> string \<Rightarrow> receptacle list \<Rightarrow> receptacle list" where
  \<comment> \<open>an assignment to the receptacle that \<open>find_receptacle_by_id\<close> returns\<close>
  "mark_receptacle f rid [] = []"
| "mark_receptacle f rid (rc # rcs) =
     (if receptacle_id rc = rid then f rc # rcs else rc # mark_receptacle f rid rcs)"

definition reset_room :: "room \<Rightarrow> error + room" where
  \<comment> \<open>lines 506 to 510: \<open>for obj in room.objects\<close> raises TypeError when the objects are None\<close>
  "reset_room r =
     (let receps = map (\<lambda>rc. rc\<lparr>plot_top_placeholder := False,
                                   plot_center_placeholder := False\<rparr>) (receptacles r)
      in case objects r of
           None \<Rightarrow> Inl TypeError
         | Some obs \<Rightarrow>
             Inr (r\<lparr>receptacles := receps,
                     objects := Some (map (\<lambda>ob. ob\<lparr>is_on_floor := False\<rparr>) obs)\<rparr>))"

fun reset_rooms :: "room list \<Rightarrow> error + room list" where
  "reset_rooms [] = Inr []"
| "reset_rooms (r # rs) =
     (case reset_room r of
        Inl e \<Rightarrow> Inl e
      | Inr r' \<Rightarrow> (case reset_rooms rs of Inl e \<Rightarrow> Inl e | Inr rs' \<Rightarrow> Inr (r' # rs')))"

fun resolve_on_floor :: "string list \<Rightarrow> room \<Rightarrow> string list \<Rightarrow> room \<times> string list" where
  "resolve_on_floor [] r names = (r, names)"
| "resolve_on_floor (oid # oids) r names =
     (case find_object_by_id r oid of
        None \<Rightarrow> resolve_on_floor oids r names
      | Some found_object \<Rightarrow>
          resolve_on_floor oids
            (r\<lparr>objects := map_option (mark_on_floor oid) (objects r)\<rparr>)
            (add_room (room_id r) names))"

fun resolve_objs :: "string list \<Rightarrow> room \<Rightarrow> string list \<Rightarrow> string list" where
  "resolve_objs [] r names = names"
| "resolve_objs (oid # oids) r names =
     (case find_object_by_id r oid of
        None \<Rightarrow> resolve_objs oids r names
      | Some found_object \<Rightarrow> resolve_objs oids r (add_room (room_id r) names))"

fun resolve_receps ::
  "(string \<times> string) list \<Rightarrow> room \<Rightarrow> string list \<Rightarrow> error + room \<times> string list" where
  "resolve_receps [] r names = Inr (r, names)"
| "resolve_receps ((prop_function, recep) # rest) r names =
     (case find_receptacle_by_id r recep of
        None \<Rightarrow> resolve_receps rest r names
      | Some found_receptacle \<Rightarrow>
          (if prop_function = ''is_on_top''
           then resolve_receps rest
                  (r\<lparr>receptacles :=
                       mark_receptacle (\<lambda>rc. rc\<lparr>plot_top_placeholder := True\<rparr>) recep
                         (receptacles r)\<rparr>)
                  (add_room (room_id r) names)
           else if prop_function = ''is_inside''
           then resolve_receps rest
                  (r\<lparr>receptacles :=
                       mark_receptacle (\<lambda>rc. rc\<lparr>plot_center_placeholder := True\<rparr>) recep
                         (receptacles r)\<rparr>)
                  (add_room (room_id r) names)
           else Inl NotImplementedError))"

fun resolve_rooms :: "mentions \<Rightarrow> room list \<Rightarrow> string list \<Rightarrow> error + room list \<times> string list" where
  \<comment> \<open>lines 512 to 537, one room after the other\<close>
  "resolve_rooms m [] names = Inr ([], names)"
| "resolve_rooms m (r # rs) names =
     (let (r1, names1) = resolve_on_floor (on_floor_objs m) r names;
          names2 = resolve_objs (mentioned_objs m) r1 names1
      in case resolve_receps (mentioned_receps m) r1 names2 of
           Inl e \<Rightarrow> Inl e
         | Inr (r2, names3) \<Rightarrow>
             (case resolve_rooms m rs names3 of
                Inl e \<Rightarrow> Inl e
              | Inr (rs', names4) \<Rightarrow> Inr (r2 # rs', names4)))"

subsection \<open>Relation lines\<close>

fun collect :: "(error + 'a list) list \<Rightarrow> error + 'a list" where
  \<comment> \<open>the calls are made in order; the first exception ends the loop\<close>
  "collect [] = Inr []"
| "collect (x # xs) =
     (case x of
        Inl e \<Rightarrow> Inl e
      | Inr ys \<Rightarrow> (case collect xs of Inl e \<Rightarrow> Inl e | Inr zs \<Rightarrow> Inr (ys @ zs)))"

definition arrow_between :: "arrow_config \<Rightarrow> point option \<Rightarrow> point option \<Rightarrow> error + patch list" where
  \<comment> \<open>\<open>add_arrow(ax, a, b, line_style, curved=True)\<close>: unpacking an anchor that is None
      raises TypeError\<close>
  "arrow_between cfg a b =
     (case a of
        None \<Rightarrow> Inl TypeError
      | Some obj_loc \<Rightarrow>
          (case b of
             None \<Rightarrow> Inl TypeError
           | Some room_loc \<Rightarrow> Inr (add_arrow cfg obj_loc room_loc True)))"

definition found_objects :: "room list \<Rightarrow> string \<Rightarrow> obj list" where
  "found_objects rs object_name = List.map_filter (\<lambda>r. find_object_by_id r object_name) rs"

definition found_receptacles :: "room list \<Rightarrow> string \<Rightarrow> receptacle list" where
  "found_receptacles rs receptacle_name =
     List.map_filter (\<lambda>r. find_receptacle_by_id r receptacle_name) rs"

definition plot_object_to_receptacle_lines ::
  "arrow_config \<Rightarrow> room list \<Rightarrow> string list \<Rightarrow> string list \<Rightarrow> string
     \<Rightarrow> error + patch list" where
  "plot_object_to_receptacle_lines cfg rs object_names' receptacle_names' fn =
     collect
       (concat
          (map (\<lambda>object_name.
             concat
               (map (\<lambda>object_obj.
                  concat
                    (map (\<lambda>receptacle_name.
                       map (\<lambda>receptacle_obj.
                              if fn = ''is_inside''
                              then arrow_between cfg (obj_center_position object_obj)
                                     (center_placeholder_position receptacle_obj)
                              else if fn = ''is_on_top''
                              then arrow_between cfg (obj_center_position object_obj)
                                     (top_placeholder_position receptacle_obj)
                              else Inr [])
                         (found_receptacles rs receptacle_name))
                       receptacle_names'))
                  (found_objects rs object_name)))
             object_names'))"

definition plot_object_to_room_lines ::
  "arrow_config \<Rightarrow> room list \<Rightarrow> string list \<Rightarrow> string list \<Rightarrow> error + patch list" where
  "plot_object_to_room_lines cfg rs object_names' room_names' =
     (let source_objects = concat (map (found_objects rs) object_names');
          target_rooms =
            concat (map (\<lambda>room_name. filter (\<lambda>r. room_id r = room_name) rs) room_names')
      in collect
           (concat
              (map (\<lambda>object_obj.
                      map (\<lambda>room_obj.
                             arrow_between cfg (obj_center_position object_obj)
                               (center_position room_obj))
                        target_rooms)
                 source_objects)))"

definition plot_lines_for :: "arrow_config \<Rightarrow> room list \<Rightarrow> propn \<Rightarrow> error + patch list" where
  \<comment> \<open>the body of the loop of lines 580 to 599\<close>
  "plot_lines_for cfg rs proposition' =
     (let fn = function_name proposition'; a = args proposition'
      in case object_names a of
           None \<Rightarrow> Inr []
         | Some names \<Rightarrow>
             (case getitem (number a) of
                Inl e \<Rightarrow> Inl e
              | Inr n \<Rightarrow>
                  if fn \<in> set [''is_inside'', ''is_on_top'']
                  then (case getitem (receptacle_names a) of
                          Inl e \<Rightarrow> Inl e
                        | Inr receps \<Rightarrow> plot_object_to_receptacle_lines cfg rs names receps fn)
                  else if fn = ''is_in_room''
                  then (case getitem (room_names a) of
                          Inl e \<Rightarrow> Inl e
                        | Inr targets \<Rightarrow> plot_object_to_room_lines cfg rs names targets)
                  else Inr []))"

subsection \<open>Rendering\<close>

definition plot_for_propositions ::
  "env \<Rightarrow> scene \<Rightarrow> propn list \<Rightarrow> real \<Rightarrow> string list option
     \<Rightarrow> error + scene \<times> real \<times> real \<times> patch list" where
  \<comment> \<open>The instruction text and the legend of the \<open>is_next_to\<close> relations are handed to
      collaborators and leave the scene as it is.\<close>
  "plot_for_propositions ev sc propositions height_offset all_mentioned_rooms =
     (case classify no_mentions propositions of
        Inl e \<Rightarrow> Inl e
      | Inr m \<Rightarrow>
          (let rs1 = map (\<lambda>r. r\<lparr>plot_placeholder := (room_id r \<in> set (mentioned_rooms m))\<rparr>)
                       (rooms sc)
           in case reset_rooms rs1 of
                Inl e \<Rightarrow> Inl e
              | Inr rs2 \<Rightarrow>
                  (case resolve_rooms m rs2 (mentioned_rooms m) of
                     Inl e \<Rightarrow> Inl e
                   | Inr (rs3, names) \<Rightarrow>
                       (let rs4 = map (\<lambda>r. r\<lparr>in_proposition := (room_id r \<in> set names)\<rparr>) rs3
                        in case plot_rooms_linear ev (sc\<lparr>rooms := rs4\<rparr>) names
                                  (target_width (scene_cfg sc)) height_offset
                                  all_mentioned_rooms of
                             Inl e \<Rightarrow> Inl e
                           | Inr (sc', height_lower, height_upper) \<Rightarrow>
                               (case collect
                                       (map (plot_lines_for (arrow (scene_cfg sc)) (rooms sc'))
                                          propositions) of
                                  Inl e \<Rightarrow> Inl e
                                | Inr patches \<Rightarrow>
                                    Inr (sc', height_lower, height_upper, patches))))))"

fun find_toposort :: "int list list \<Rightarrow> constraint list \<Rightarrow> error + int list list" where
  "find_toposort found [] = Inr found"
| "find_toposort found (c # cs) =
     (if ctype c = ''TemporalConstraint''
      then (case getitem (toposort c) of
              Inl e \<Rightarrow> Inl e
            | Inr levels \<Rightarrow> find_toposort levels cs)
      else find_toposort found cs)"

fun prepass_rooms :: "mentions \<Rightarrow> room list \<Rightarrow> string list \<Rightarrow> string list" where
  \<comment> \<open>lines 687 to 697; the placeholder flags are not touched here\<close>
  "prepass_rooms m [] names = names"
| "prepass_rooms m (r # rs) names =
     prepass_rooms m rs
       (fold (\<lambda>(prop_function, recep) names.
                case find_receptacle_by_id r recep of
                  None \<Rightarrow> names
                | Some found_receptacle \<Rightarrow> add_room (room_id r) names)
          (mentioned_receps m)
          (resolve_objs (mentioned_objs m) r names))"

fun select_propositions :: "propn list \<Rightarrow> int list \<Rightarrow> error + propn list" where
  \<comment> \<open>\<open>[propositions[idx] for idx in current_level]\<close>\<close>
  "select_propositions props [] = Inr []"
| "select_propositions props (idx # idxs) =
     (case py_index props idx of
        Inl e \<Rightarrow> Inl e
      | Inr p \<Rightarrow>
          (case select_propositions props idxs of
             Inl e \<Rightarrow> Inl e
           | Inr ps \<Rightarrow> Inr (p # ps)))"

fun plot_levels ::
  "env \<Rightarrow> propn list \<Rightarrow> string list \<Rightarrow> int list list \<Rightarrow> scene \<Rightarrow> real \<Rightarrow> real \<Rightarrow> patch list
     \<Rightarrow> error + scene \<times> real \<times> real \<times> patch list" where
  "plot_levels ev props all_mentioned [] sc max_upper min_lower drawn =
     Inr (sc, max_upper, min_lower, drawn)"
| "plot_levels ev props all_mentioned (current_level # levels) sc max_upper min_lower drawn =
     (case select_propositions props current_level of
        Inl e \<Rightarrow> Inl e
      | Inr current_propositions \<Rightarrow>
          (case plot_for_propositions ev sc current_propositions min_lower
                  (Some all_mentioned) of
             Inl e \<Rightarrow> Inl e
           | Inr (sc', height_lower, height_upper, patches) \<Rightarrow>
               plot_levels ev props all_mentioned levels sc'
                 (max height_upper max_upper) (min (height_lower - 40) min_lower)
                 (drawn @ patches)))"

definition Scene_plot ::
  "env \<Rightarrow> scene \<Rightarrow> propn list option \<Rightarrow> constraint list option
     \<Rightarrow> error + scene \<times> patch list" where
  \<comment> \<open>\<open>Scene.plot\<close>: the scene after the call and the arrows drawn\<close>
  "Scene_plot ev sc propositions constraints =
     (case constraints of
        None \<Rightarrow> Inl AssertionError
      | Some cs \<Rightarrow>
          (case propositions of
             None \<Rightarrow> Inl AssertionError
           | Some props \<Rightarrow>
               (case find_toposort [] cs of
                  Inl e \<Rightarrow> Inl e
                | Inr levels \<Rightarrow>
                    if levels \<noteq> []
                    then (case prepass no_mentions props of
                            Inl e \<Rightarrow> Inl e
                          | Inr m \<Rightarrow>
                              (let all_mentioned_rooms =
                                     sort (prepass_rooms m (rooms sc) (mentioned_rooms m))
                               in case plot_levels ev props all_mentioned_rooms levels sc 0 0 [] of
                                    Inl e \<Rightarrow> Inl e
                                  | Inr (sc', max_upper, min_lower, drawn) \<Rightarrow>
                                      Inr (sc'\<lparr>scene_height := max_upper - min_lower\<rparr>, drawn)))
                    else (case plot_for_propositions ev sc props 0 None of
                            Inl e \<Rightarrow> Inl e
                          | Inr (sc', height_lower, height_upper, patches) \<Rightarrow>
                              Inr (sc'\<lparr>scene_height := height_upper - height_lower\<rparr>,
                                   patches)))))"

section \<open>Example scene\<close>

text \<open>A small configuration and two rooms, used to evaluate the functions at concrete inputs.\<close>

definition example_object_config :: object_config where
  "example_object_config = \<lparr>object_width = 20, object_height = 20, text_margin = 5\<rparr>"

definition example_room_config :: room_config where
  "example_room_config =
     \<lparr>min_width = 80, min_width_per_object = 2, left_pad = 5, right_pad = 5,
      bottom_pad = 10, top_pad = 10, horizontal_margin = 5, vertical_margin = 5,
      full_height = 100, half_height = 50,
      receptacle_horizontal_margin_fraction = 1 / 10,
      object_horizontal_margin_fraction = 1 / 10,
      objects_height = 1 / 2,
      placeholder_height_if_full = 1 / 2, placeholder_height_if_half = 1 / 2\<rparr>"

definition example_arrow_config :: arrow_config where
  "example_arrow_config = \<lparr>head_length = 10\<rparr>"

definition example_receptacle :: "string \<Rightarrow> real \<Rightarrow> receptacle" where
  "example_receptacle rid w =
     \<lparr>receptacle_id = rid, recep_width = w, plot_top_placeholder = False,
      plot_center_placeholder = False, plotted_at = None, top_placeholder_position = None,
      center_placeholder_position = None, new_top_item_position = None\<rparr>"

definition example_hall :: room where
  "example_hall = Room example_room_config ''hall_0'' [] None False False None"

definition example_kitchen :: room where
  "example_kitchen =
     Room example_room_config ''kitchen_0'' [example_receptacle ''fridge_0'' 180]
       None False False None"

definition example_env :: env where
  "example_env =
     \<lparr>icon_exists = (\<lambda>path. False),
      object_category_map = [''apple'' \<mapsto> ''food''],
      category_color_map = [''food'' \<mapsto> ''red''],
      receptacle_top_anchor = (\<lambda>rid p. (fst p + 10, snd p + 40)),
      receptacle_center_anchor = (\<lambda>rid p. (fst p + 10, snd p + 20)),
      receptacle_top_item_anchor = (\<lambda>rid p. (fst p + 10, snd p + 45))\<rparr>"

definition cramped_room_config :: room_config where
  "cramped_room_config = example_room_config\<lparr>left_pad := - 20, right_pad := - 20\<rparr>"

definition cramped_kitchen :: room where
  "cramped_kitchen =
     Room cramped_room_config ''kitchen_0'' [example_receptacle ''fridge_0'' 180]
       None False False None"

definition example_pantry :: room where
  "example_pantry =
     Room example_room_config ''pantry_0'' [example_receptacle ''shelf_0'' 60]
       (Some [Object example_object_config ''apple_0'' None]) False False None"

section \<open>Verified properties\<close>

subsection \<open>Binary64 arithmetic\<close>

lemma round_half_even_error: "\<bar>of_int (round_half_even y) - y\<bar> \<le> 1 / 2"
  unfolding round_half_even_def Let_def by (auto simp: abs_if) linarith+

lemma round_half_even_int [simp]: "round_half_even (of_int m) = m"
  by (simp add: round_half_even_def)

lemma ulp_pos: "0 < ulp x"
  by (simp add: ulp_def)

lemma float_exponent_eq:
  assumes "2 powr of_int e \<le> \<bar>x\<bar>" and "\<bar>x\<bar> < 2 powr (of_int e + 1)" and "- 1022 \<le> e"
  shows "float_exponent x = e"
proof -
  have pos: "0 < \<bar>x\<bar>" using assms(1) by (smt (verit) powr_gt_zero)
  have "\<lfloor>log 2 \<bar>x\<bar>\<rfloor> = e"
    using assms(1,2) pos by (simp add: floor_log_eq_powr_iff)
  then show ?thesis using assms(3) by (simp add: float_exponent_def)
qed

lemma below_threshold: "\<bar>v\<bar> \<le> (2 :: real) ^ 64 \<Longrightarrow> \<bar>v\<bar> < overflow_threshold"
proof -
  assume "\<bar>v\<bar> \<le> (2 :: real) ^ 64"
  also have "(2 :: real) ^ 64 < 2 ^ 1024"
    by (rule power_strict_increasing) simp_all
  finally show ?thesis by (simp only: overflow_threshold_def)
qed

lemma round64_eval:
  assumes "2 powr of_int e \<le> \<bar>x\<bar>" and "\<bar>x\<bar> < 2 powr (of_int e + 1)" and "- 1022 \<le> e"
      and "round_half_even (x / 2 powr (of_int e - 52)) = m"
      and "\<bar>of_int m * 2 powr (of_int e - 52)\<bar> \<le> (2 :: real) ^ 64"
  shows "round64 x = Finite (of_int m * 2 powr (of_int e - 52))"
proof -
  have "x \<noteq> 0" using assms(1) by (smt (verit) powr_gt_zero)
  moreover have "ulp x = 2 powr (of_int e - 52)"
    by (simp add: ulp_def float_exponent_eq [OF assms(1-3)])
  moreover have "\<bar>of_int m * 2 powr (of_int e - 52)\<bar> < overflow_threshold"
    using assms(5) below_threshold by blast
  ultimately show ?thesis using assms(4) by (simp add: round64_def Let_def)
qed

lemma ulp_bound: "x \<noteq> 0 \<Longrightarrow> ulp x \<le> max (\<bar>x\<bar> / 2 ^ 52) (1 / 2 ^ 1074)"
proof -
  assume nz: "x \<noteq> 0"
  show ?thesis
  proof (cases "- 1022 \<le> \<lfloor>log 2 \<bar>x\<bar>\<rfloor>")
    case True
    then have e: "float_exponent x = \<lfloor>log 2 \<bar>x\<bar>\<rfloor>" by (simp add: float_exponent_def)
    have "of_int \<lfloor>log 2 \<bar>x\<bar>\<rfloor> \<le> log 2 \<bar>x\<bar>" by simp
    then have "2 powr of_int \<lfloor>log 2 \<bar>x\<bar>\<rfloor> \<le> 2 powr log 2 \<bar>x\<bar>"
      by (simp only: powr_le_cancel_iff) 
    also have "\<dots> = \<bar>x\<bar>" using nz by simp
    finally have "2 powr of_int \<lfloor>log 2 \<bar>x\<bar>\<rfloor> \<le> \<bar>x\<bar>" .
    then have "ulp x \<le> \<bar>x\<bar> / 2 ^ 52"
      by (simp add: ulp_def e powr_diff powr_numeral divide_right_mono)
    then show ?thesis by simp
  next
    case False
    then have e: "float_exponent x = - 1022" by (simp add: float_exponent_def)
    have "ulp x = 1 / 2 ^ 1074"
      by (simp add: ulp_def e powr_minus_divide powr_numeral)
    then show ?thesis by simp
  qed
qed

lemma round64_error:
  assumes "round64 x = Finite y"
  shows "\<bar>y - x\<bar> \<le> max (\<bar>x\<bar> / 2 ^ 53) (1 / 2 ^ 1075)"
proof (cases "x = 0")
  case True
  with assms show ?thesis by (simp add: round64_def)
next
  case False
  with assms have y: "y = of_int (round_half_even (x / ulp x)) * ulp x"
    by (simp add: round64_def Let_def split: if_splits)
  have "\<bar>y - x\<bar> = \<bar>of_int (round_half_even (x / ulp x)) - x / ulp x\<bar> * ulp x"
    using ulp_pos [of x] by (simp add: y abs_mult [symmetric] left_diff_distrib abs_mult_pos)
  also have "\<dots> \<le> 1 / 2 * ulp x"
    using round_half_even_error ulp_pos [of x] by (intro mult_right_mono) simp_all
  also have "\<dots> \<le> 1 / 2 * max (\<bar>x\<bar> / 2 ^ 52) (1 / 2 ^ 1074)"
    using ulp_bound [OF False] by simp
  also have "\<dots> = max (\<bar>x\<bar> / 2 ^ 53) (1 / 2 ^ 1075)"
    by (simp add: max_def)
  finally show ?thesis .
qed

lemma two_powr_int_nonneg: "0 \<le> j \<Longrightarrow> (2 :: real) powr of_int j = of_int (2 ^ nat j)"
  by (simp add: powr_real_of_int)

lemma round64_grid:
  assumes y: "y = of_int m * 2 powr of_int k" and m: "\<bar>m\<bar> < 2 ^ 53" and k: "- 1074 \<le> k"
  shows "round64 y =
           (if overflow_threshold \<le> \<bar>y\<bar> then (if 0 < y then PosInf else NegInf) else Finite y)"
proof (cases "y = 0")
  case True
  then show ?thesis by (simp add: round64_def overflow_threshold_def)
next
  case False
  define e where "e = float_exponent y"
  have ypos: "0 < \<bar>y\<bar>" using False by simp
  have "\<bar>y\<bar> = of_int \<bar>m\<bar> * 2 powr of_int k"
    by (simp add: y abs_mult)
  also have "\<dots> < 2 ^ 53 * 2 powr of_int k"
  proof (rule mult_strict_right_mono)
    have "of_int \<bar>m\<bar> < (of_int (2 ^ 53) :: real)" using m by (simp only: of_int_less_iff)
    then show "of_int \<bar>m\<bar> < (2 :: real) ^ 53" by simp
  qed simp
  also have "\<dots> = 2 powr (of_int k + 53)"
    by (simp add: powr_add powr_numeral)
  finally have "\<bar>y\<bar> < 2 powr (of_int k + 53)" .
  then have "log 2 \<bar>y\<bar> < of_int k + 53"
    using ypos by (simp add: log_less_iff)
  then have "\<lfloor>log 2 \<bar>y\<bar>\<rfloor> < k + 53"
    by (simp add: floor_less_iff)
  then have ek: "e \<le> k + 52"
    using k by (simp add: e_def float_exponent_def)
  define j where "j = k + 52 - e"
  have j: "0 \<le> j" using ek by (simp add: j_def)
  define U where "U = ulp y"
  have Upos: "0 < U" by (simp add: U_def ulp_pos)
  have u: "U = 2 powr (of_int e - 52)"
    by (simp add: U_def ulp_def e_def)
  have "of_int k = of_int j + (of_int e - 52 :: real)"
    by (simp add: j_def)
  then have split: "(2 :: real) powr of_int k = 2 powr of_int j * 2 powr (of_int e - 52)"
    by (simp only: powr_add)
  have yk: "y = of_int m * (2 powr of_int j * U)"
    by (simp only: y split u)
  have q: "y / U = of_int (m * 2 ^ nat j)"
    using Upos two_powr_int_nonneg [OF j] by (simp add: yk)
  have "of_int (round_half_even (y / U)) * U = of_int (m * 2 ^ nat j) * U"
    by (simp only: q round_half_even_int)
  also have "\<dots> = y"
    using two_powr_int_nonneg [OF j] by (simp add: yk)
  finally have "of_int (round_half_even (y / ulp y)) * ulp y = y"
    by (simp only: U_def)
  then show ?thesis
    using False by (simp add: round64_def Let_def)
qed

lemma round64_fixed:
  assumes "y = of_int m * 2 powr of_int k" and "\<bar>m\<bar> < 2 ^ 53" and "- 1074 \<le> k"
      and "\<bar>y\<bar> < overflow_threshold"
  shows "round64 y = Finite y"
  using round64_grid [OF assms(1-3)] assms(4) by simp






lemma round64_dyadic:
  assumes "\<bar>m\<bar> < 2 ^ 53" and "n \<le> 1074"
  shows "round64 (of_int m / 2 ^ n) = Finite (of_int m / 2 ^ n)"
proof (rule round64_fixed [where m = m and k = "- int n"])
  show "real_of_int m / 2 ^ n = of_int m * 2 powr of_int (- int n)"
    by (simp add: powr_minus_divide powr_realpow)
  show "\<bar>m\<bar> < 2 ^ 53" by (rule assms(1))
  show "- 1074 \<le> - int n" using assms(2) by simp
  have "\<bar>real_of_int m / 2 ^ n\<bar> \<le> \<bar>real_of_int m\<bar>"
    by (simp add: divide_le_eq abs_mult mult_le_cancel_left1 flip: abs_mult_pos)
  also have "\<dots> \<le> 2 ^ 64"
  proof -
    have "\<bar>m\<bar> \<le> 2 ^ 64" using assms(1) by simp
    then have "real_of_int \<bar>m\<bar> \<le> real_of_int (2 ^ 64)" by (simp only: of_int_le_iff)
    then show ?thesis by simp
  qed
  finally show "\<bar>real_of_int m / 2 ^ n\<bar> < overflow_threshold"
    by (rule below_threshold)
qed

lemma round64_int: "\<bar>m\<bar> < 2 ^ 53 \<Longrightarrow> round64 (of_int m) = Finite (of_int m)"
  using round64_dyadic [of m 0] by simp

lemma round64_rounding_bound: "round64 x = Finite y \<Longrightarrow> \<bar>y - x\<bar> \<le> rounding_bound x"
  unfolding rounding_bound_def by (rule round64_error)




subsection \<open>Width redistribution\<close>

lemma redistribute64_run:
  assumes "py_sum (map width rs) = Finite T" and "T \<noteq> 0"
  shows "redistribute_target_width_to_rooms64 rs tw
           = Inr (map (\<lambda>r. f64_mul (Finite (width r)) (round64 (tw / T))) rs)"
  using assms by (simp add: redistribute_target_width_to_rooms64_def py_truediv_def)

lemma scaled_widths_error:
  assumes "map (\<lambda>r. f64_mul (Finite (width r)) (Finite f)) rs = map Finite vs"
  shows "length vs = length rs
         \<and> (\<forall>i<length rs. \<bar>vs ! i - width (rs ! i) * f\<bar> \<le> rounding_bound (width (rs ! i) * f))
         \<and> \<bar>sum_list vs - f * sum_list (map width rs)\<bar>
             \<le> sum_list (map (\<lambda>r. rounding_bound (width r * f)) rs)"
  using assms
proof (induction rs arbitrary: vs)
  case Nil
  then show ?case by simp
next
  case (Cons r rs)
  then obtain v vs' where vs: "vs = v # vs'" by (cases vs) auto
  with Cons.prems have hd: "f64_mul (Finite (width r)) (Finite f) = Finite v"
    and tl: "map (\<lambda>r. f64_mul (Finite (width r)) (Finite f)) rs = map Finite vs'"
    by simp_all
  from hd have v: "\<bar>v - width r * f\<bar> \<le> rounding_bound (width r * f)"
    by (simp add: round64_rounding_bound)
  note ih = Cons.IH [OF tl]
  have len: "length vs = length (r # rs)" using ih vs by simp
  have each: "\<forall>i<length (r # rs).
      \<bar>vs ! i - width ((r # rs) ! i) * f\<bar> \<le> rounding_bound (width ((r # rs) ! i) * f)"
  proof (intro allI impI)
    fix i assume "i < length (r # rs)"
    then show "\<bar>vs ! i - width ((r # rs) ! i) * f\<bar> \<le> rounding_bound (width ((r # rs) ! i) * f)"
      using v ih vs by (cases i) simp_all
  qed
  have "\<bar>sum_list vs - f * sum_list (map width (r # rs))\<bar>
          = \<bar>(v - width r * f) + (sum_list vs' - f * sum_list (map width rs))\<bar>"
    by (simp add: vs algebra_simps)
  also have "\<dots> \<le> \<bar>v - width r * f\<bar> + \<bar>sum_list vs' - f * sum_list (map width rs)\<bar>"
    by (rule abs_triangle_ineq)
  also have "\<dots> \<le> rounding_bound (width r * f)
                    + sum_list (map (\<lambda>r. rounding_bound (width r * f)) rs)"
    using v ih by simp
  finally have "\<bar>sum_list vs - f * sum_list (map width (r # rs))\<bar>
          \<le> sum_list (map (\<lambda>r. rounding_bound (width r * f)) (r # rs))"
    by simp
  with len each show ?case by blast
qed

lemma round64_small_ints:
  "round64 100 = Finite 100" "round64 200 = Finite 200" "round64 300 = Finite 300"
  "round64 150 = Finite 150" "round64 (3 / 2) = Finite (3 / 2)"
  using round64_int [of 100] round64_int [of 200] round64_int [of 300] round64_int [of 150]
    round64_dyadic [of 3 1]
  by simp_all

lemma redistribute64_example:
  assumes "width r1 = 100" and "width r2 = 200"
  shows "redistribute_target_width_to_rooms64 [r1, r2] 450 = Inr [Finite 150, Finite 300]"
  using assms
  by (simp add: redistribute_target_width_to_rooms64_def py_sum_def py_truediv_def
        round64_small_ints)

lemma round64_third: "round64 (10 / 3) = Finite (7505999378950827 / 2 ^ 51)"
proof -
  have r: "round_half_even (10 / 3 / 2 powr (of_int 1 - 52)) = 7505999378950827"
    by (simp add: powr_minus_divide powr_numeral round_half_even_def Let_def)
  have "round64 (10 / 3) = Finite (of_int 7505999378950827 * 2 powr (of_int 1 - 52))"
    by (rule round64_eval [OF _ _ _ r]) (simp_all add: powr_minus_divide powr_numeral)
  then show ?thesis by (simp add: powr_minus_divide powr_numeral)
qed

lemma round64_scaled_third:
  "round64 (100 * (7505999378950827 / 2 ^ 51)) = Finite (5864062014805334 / 2 ^ 44)"
proof -
  have r: "round_half_even (100 * (7505999378950827 / 2 ^ 51) / 2 powr (of_int 8 - 52))
             = 5864062014805334"
    by (simp add: powr_minus_divide powr_numeral round_half_even_def Let_def)
  have "round64 (100 * (7505999378950827 / 2 ^ 51))
          = Finite (of_int 5864062014805334 * 2 powr (of_int 8 - 52))"
    by (rule round64_eval [OF _ _ _ r]) (simp_all add: powr_minus_divide powr_numeral)
  then show ?thesis by (simp add: powr_minus_divide powr_numeral)
qed

lemma round64_sums_of_thirds:
  "round64 (5864062014805334 / 2 ^ 44) = Finite (5864062014805334 / 2 ^ 44)"
  "round64 (5864062014805334 / 2 ^ 44 + 5864062014805334 / 2 ^ 44)
     = Finite (5864062014805334 / 2 ^ 43)"
  "round64 (5864062014805334 / 2 ^ 43 + 5864062014805334 / 2 ^ 44)
     = Finite (8796093022208001 / 2 ^ 43)"
  using round64_dyadic [of 5864062014805334 44] round64_dyadic [of 5864062014805334 43]
    round64_dyadic [of 8796093022208001 43]
  by simp_all

lemma redistribute64_thirds:
  assumes "width r = 100"
  shows "redistribute_target_width_to_rooms64 [r, r, r] 1000
           = Inr [Finite (5864062014805334 / 2 ^ 44), Finite (5864062014805334 / 2 ^ 44),
                  Finite (5864062014805334 / 2 ^ 44)]"
  using assms round64_third round64_scaled_third
  by (simp add: redistribute_target_width_to_rooms64_def py_sum_def py_truediv_def
        round64_small_ints)

lemma py_sum_thirds:
  "py_sum [5864062014805334 / 2 ^ 44, 5864062014805334 / 2 ^ 44, 5864062014805334 / 2 ^ 44]
     = Finite (8796093022208001 / 2 ^ 43)"
  using round64_sums_of_thirds by (simp add: py_sum_def)


text \<open>
  Claim C1, as amended. The widths are floats and every operation of
  \<open>redistribute_target_width_to_rooms\<close> rounds. When the float total \<open>T\<close> of the room widths is
  finite and not zero, the function returns one width per room: the rounded product of the
  room's width and the factor, the rounded quotient \<open>target_width / T\<close>. A finite factor \<open>f\<close>
  is within \<open>rounding_bound\<close> of \<open>target_width / T\<close>. When the returned widths are finite, each
  is within \<open>rounding_bound\<close> of the room's width times \<open>f\<close>, and their exact sum differs from
  \<open>f\<close> times the sum of the room widths by no more than the sum of these bounds: the
  returned widths add up to \<open>target_width\<close> up to rounding only. A total of zero raises
  \<open>ZeroDivisionError\<close>. Two rooms of width 100 and 200 with target width 450 get exactly 150
  and 300.
\<close>

theorem redistribute_rounded_proportional:
  "(py_sum (map width rs) = Finite T \<and> T \<noteq> 0 \<longrightarrow>
      redistribute_target_width_to_rooms64 rs tw
        = Inr (map (\<lambda>r. f64_mul (Finite (width r)) (round64 (tw / T))) rs))
   \<and> (round64 (tw / T) = Finite f \<longrightarrow> \<bar>f - tw / T\<bar> \<le> rounding_bound (tw / T))
   \<and> (map (\<lambda>r. f64_mul (Finite (width r)) (Finite f)) rs = map Finite vs \<longrightarrow>
        length vs = length rs
        \<and> (\<forall>i<length rs. \<bar>vs ! i - width (rs ! i) * f\<bar> \<le> rounding_bound (width (rs ! i) * f))
        \<and> \<bar>sum_list vs - f * sum_list (map width rs)\<bar>
            \<le> sum_list (map (\<lambda>r. rounding_bound (width r * f)) rs))
   \<and> (py_sum (map width rs) = Finite 0 \<longrightarrow>
        redistribute_target_width_to_rooms64 rs tw = Inl ZeroDivisionError)
   \<and> (width r1 = 100 \<and> width r2 = 200 \<longrightarrow>
        redistribute_target_width_to_rooms64 [r1, r2] 450 = Inr [Finite 150, Finite 300])"
proof (intro conjI impI)
  assume "py_sum (map width rs) = Finite T \<and> T \<noteq> 0"
  then show "redistribute_target_width_to_rooms64 rs tw
      = Inr (map (\<lambda>r. f64_mul (Finite (width r)) (round64 (tw / T))) rs)"
    by (simp add: redistribute64_run)
next
  assume "round64 (tw / T) = Finite f"
  then show "\<bar>f - tw / T\<bar> \<le> rounding_bound (tw / T)"
    by (rule round64_rounding_bound)
next
  assume vs: "map (\<lambda>r. f64_mul (Finite (width r)) (Finite f)) rs = map Finite vs"
  note e = scaled_widths_error [OF vs]
  from e show "length vs = length rs" by blast
  from e show "\<forall>i<length rs. \<bar>vs ! i - width (rs ! i) * f\<bar>
                  \<le> rounding_bound (width (rs ! i) * f)"
    by blast
  from e show "\<bar>sum_list vs - f * sum_list (map width rs)\<bar>
                 \<le> sum_list (map (\<lambda>r. rounding_bound (width r * f)) rs)"
    by blast
next
  assume "py_sum (map width rs) = Finite 0"
  then show "redistribute_target_width_to_rooms64 rs tw = Inl ZeroDivisionError"
    by (simp add: redistribute_target_width_to_rooms64_def py_truediv_def)
next
  assume "width r1 = 100 \<and> width r2 = 200"
  then show "redistribute_target_width_to_rooms64 [r1, r2] 450 = Inr [Finite 150, Finite 300]"
    by (simp add: redistribute64_example)
qed

lemma example_widths: "width example_hall = 100" "width example_kitchen = 200"
  by (simp_all add: example_hall_def example_kitchen_def Room_def init_size_def
        example_room_config_def example_receptacle_def)

lemma py_sum_example: "py_sum [100, 200] = Finite 300"
  by (simp add: py_sum_def round64_small_ints)

theorem redistribute_rounded_proportional_witness:
  "py_sum (map width [example_hall, example_kitchen]) = Finite 300
   \<and> (300 :: real) \<noteq> 0
   \<and> redistribute_target_width_to_rooms64 [example_hall, example_kitchen] 450
       = Inr [Finite 150, Finite 300]
   \<and> round64 (450 / 300) = Finite (3 / 2)
   \<and> \<bar>3 / 2 - 450 / 300\<bar> \<le> rounding_bound (450 / 300)
   \<and> map (\<lambda>r. f64_mul (Finite (width r)) (Finite (3 / 2))) [example_hall, example_kitchen]
       = map Finite [150, 300]
   \<and> \<bar>sum_list [150, 300] - 3 / 2 * sum_list (map width [example_hall, example_kitchen])\<bar>
       \<le> sum_list (map (\<lambda>r. rounding_bound (width r * (3 / 2))) [example_hall, example_kitchen])"
  using redistribute_rounded_proportional [of "[example_hall, example_kitchen]" 300 450 "3 / 2"
          "[150, 300]" example_hall example_kitchen]
  by (simp add: example_widths py_sum_example round64_small_ints)

text \<open>
  Three rooms of width 100 and target width 1000: the factor is the float nearest to
  \<open>10 / 3\<close>, every returned width is \<open>333.33333333333337\<close>, and neither their exact sum nor
  their float sum (\<open>1000.0000000000001\<close>) is 1000.
\<close>

theorem redistribute_sum_counterexample:
  "[example_hall, example_hall, example_hall] \<noteq> []
   \<and> 0 < sum_list (map width [example_hall, example_hall, example_hall])
   \<and> py_sum (map width [example_hall, example_hall, example_hall]) = Finite 300
   \<and> redistribute_target_width_to_rooms64 [example_hall, example_hall, example_hall] 1000
       = Inr [Finite (5864062014805334 / 2 ^ 44), Finite (5864062014805334 / 2 ^ 44),
              Finite (5864062014805334 / 2 ^ 44)]
   \<and> 5864062014805334 / 2 ^ 44 \<noteq> (100 * (1000 / 300) :: real)
   \<and> sum_list [5864062014805334 / 2 ^ 44, 5864062014805334 / 2 ^ 44,
                5864062014805334 / 2 ^ 44] \<noteq> (1000 :: real)
   \<and> py_sum [5864062014805334 / 2 ^ 44, 5864062014805334 / 2 ^ 44, 5864062014805334 / 2 ^ 44]
       = Finite (8796093022208001 / 2 ^ 43)
   \<and> 8796093022208001 / 2 ^ 43 \<noteq> (1000 :: real)"
proof -
  have "py_sum (map width [example_hall, example_hall, example_hall]) = Finite 300"
    by (simp add: py_sum_def example_widths round64_small_ints)
  moreover note redistribute64_thirds [OF example_widths(1)] py_sum_thirds
  ultimately show ?thesis by (simp add: example_widths)
qed

subsection \<open>Room ordering\<close>

lemma contains_sublist: "contains n h \<longleftrightarrow> sublist n h"
proof (induction h)
  case Nil
  then show ?case by simp
next
  case (Cons c cs)
  have "take (length n) (c # cs) = n \<longleftrightarrow> prefix n (c # cs)"
    by (metis append_eq_conv_conj append_take_drop_id prefix_def)
  with Cons show ?case by (simp add: sublist_Cons_right)
qed

lemma keyword_hits_count:
  "keyword_hits i ks = int (length (filter (\<lambda>k. sublist (id_phrase i) k) ks))"
  unfolding keyword_hits_def by (induction ks) (simp_all add: contains_sublist)

lemma match_count_Nil: "substring_match_count [] ks = 0"
  by (simp add: substring_match_count_def)

lemma match_count_Cons:
  "substring_match_count (i # ids) ks = keyword_hits i ks + substring_match_count ids ks"
  by (simp add: substring_match_count_def keyword_hits_count filter_map o_def)

lemma match_count_append:
  "substring_match_count (xs @ ys) ks
     = substring_match_count xs ks + substring_match_count ys ks"
  by (induction xs) (simp_all add: match_count_Cons match_count_Nil)

lemma match_count_map:
  "substring_match_count (map f xs) ks = sum_list (map (\<lambda>x. keyword_hits (f x) ks) xs)"
  by (induction xs) (simp_all add: match_count_Cons match_count_Nil)

lemma relevance_score_count:
  "relevance_score r ks = substring_match_count (entity_ids r) ks"
  by (cases "objects r")
     (simp_all add: relevance_score_def entity_ids_def Let_def
        match_count_Cons match_count_append match_count_map match_count_Nil)

lemma fridge_keywords:
  "instruction_keywords ''put the apple in the fridge''
     = [''put'', ''the'', ''apple'', ''in'', ''the'', ''fridge'']"
  by code_simp

lemma counter_keywords:
  "instruction_keywords ''Wipe the counter.'' = [''wipe'', ''the'', ''counter'']"
  by code_simp

lemma look_keywords: "instruction_keywords ''look around'' = [''look'', ''around'']"
  by code_simp

lemma example_phrases:
  "id_phrase ''kitchen_0'' = ''kitchen''"
  "id_phrase ''fridge_0'' = ''fridge''"
  "id_phrase ''hall_0'' = ''hall''"
  "id_phrase ''kitchen_counter_0'' = ''kitchen counter''"
  by (simp_all add: id_phrase_def split_sep_def)

lemma fridge_hits:
  "keyword_hits ''kitchen_0'' [''put'', ''the'', ''apple'', ''in'', ''the'', ''fridge''] = 0"
  "keyword_hits ''fridge_0'' [''put'', ''the'', ''apple'', ''in'', ''the'', ''fridge''] = 1"
  "keyword_hits ''hall_0'' [''put'', ''the'', ''apple'', ''in'', ''the'', ''fridge''] = 0"
  by (simp_all add: keyword_hits_def example_phrases)

lemma look_hits:
  "keyword_hits ''kitchen_0'' [''look'', ''around''] = 0"
  "keyword_hits ''fridge_0'' [''look'', ''around''] = 0"
  "keyword_hits ''hall_0'' [''look'', ''around''] = 0"
  by (simp_all add: keyword_hits_def example_phrases)

lemma example_room_fields:
  "room_id example_hall = ''hall_0''" "receptacles example_hall = []"
  "objects example_hall = None"
  "room_id example_kitchen = ''kitchen_0''"
  "map receptacle_id (receptacles example_kitchen) = [''fridge_0'']"
  "objects example_kitchen = None"
  by (simp_all add: example_hall_def example_kitchen_def Room_def init_size_def Let_def
        example_receptacle_def)

lemma score_no_objects:
  "objects r = None \<Longrightarrow>
     relevance_score r ks
       = keyword_hits (room_id r) ks
         + sum_list (map (\<lambda>i. keyword_hits i ks) (map receptacle_id (receptacles r)))"
  by (simp add: relevance_score_def Let_def o_def)

lemma sorted_reverse_stable:
  "filter (\<lambda>y. f y = k) (sorted_reverse f xs) = filter (\<lambda>y. f y = k) xs"
  by (simp add: sorted_reverse_def rev_filter [symmetric] sort_key_stable)

lemma constant_keys_sorted:
  fixes f :: "'a \<Rightarrow> int"
  shows "\<forall>x\<in>set ys. f x = c \<Longrightarrow> sorted (map f ys)"
  by (induction ys) simp_all

lemma sorted_reverse_equal_keys:
  assumes eq: "\<forall>x\<in>set xs. \<forall>y\<in>set xs. f x = f y"
  shows "sorted_reverse f xs = xs"
proof (cases xs)
  case Nil
  then show ?thesis by (simp add: sorted_reverse_def)
next
  case (Cons a as)
  have "\<forall>x\<in>set (rev xs). f x = f a"
    unfolding set_rev using eq Cons by (metis list.set_intros(1))
  then have "sorted (map f (rev xs))" by (rule constant_keys_sorted)
  then show ?thesis by (simp add: sorted_reverse_def sort_key_id_if_sorted)
qed

text \<open>
  Claim C5. With an empty instruction \<open>sort_rooms\<close> returns the list of rooms as it is.
  With an instruction that gives every room the same relevance score it returns the rooms
  in their original order; in general the rooms of any one score keep their relative
  order, that is, the descending sort is stable.
\<close>

theorem sort_rooms_stable:
  "sort_rooms rs [] = rs
   \<and> ((\<forall>r\<in>set rs. \<forall>r'\<in>set rs.
          relevance_score r (instruction_keywords instr)
            = relevance_score r' (instruction_keywords instr))
        \<longrightarrow> sort_rooms rs instr = rs)
   \<and> filter (\<lambda>r. relevance_score r (instruction_keywords instr) = k)
        (sort_rooms rs instr)
       = filter (\<lambda>r. relevance_score r (instruction_keywords instr) = k) rs"
proof (intro conjI impI)
  show "sort_rooms rs [] = rs"
    by (simp add: sort_rooms_def)
next
  assume eq: "\<forall>r\<in>set rs. \<forall>r'\<in>set rs.
            relevance_score r (instruction_keywords instr)
              = relevance_score r' (instruction_keywords instr)"
  have "sorted_reverse (\<lambda>r. relevance_score r (instruction_keywords instr)) rs
          = rs"
    using eq by (rule sorted_reverse_equal_keys)
  then show "sort_rooms rs instr = rs"
    by (simp add: sort_rooms_def Let_def)
next
  show "filter (\<lambda>r. relevance_score r (instruction_keywords instr) = k)
          (sort_rooms rs instr)
        = filter (\<lambda>r. relevance_score r (instruction_keywords instr) = k) rs"
    by (simp add: sort_rooms_def Let_def sorted_reverse_stable)
qed

lemma look_scores:
  "relevance_score example_hall (instruction_keywords ''look around'') = 0"
  "relevance_score example_kitchen (instruction_keywords ''look around'') = 0"
  by (simp_all add: score_no_objects example_room_fields look_keywords look_hits)

theorem sort_rooms_stable_witness:
  "relevance_score example_hall (instruction_keywords ''look around'')
     = relevance_score example_kitchen (instruction_keywords ''look around'')
   \<and> sort_rooms [example_hall, example_kitchen] ''look around''
       = [example_hall, example_kitchen]
   \<and> sort_rooms [example_hall, example_kitchen] [] = [example_hall, example_kitchen]"
  using sort_rooms_stable [of "[example_hall, example_kitchen]" "''look around''" 0]
  by (simp add: look_scores)

lemma split_words_word:
  "\<forall>c\<in>set w. \<not> isspace c \<Longrightarrow> split_words cur (w @ s) = split_words (cur @ w) s"
  by (induction w arbitrary: cur) simp_all

lemma split_words_separator:
  assumes "\<forall>c\<in>set sep. isspace c" and "sep \<noteq> []" and "cur \<noteq> []"
  shows "split_words cur (sep @ s) = cur # split_words [] s"
proof -
  have skip: "split_words [] (sp @ s) = split_words [] s" if "\<forall>c\<in>set sp. isspace c" for sp
    using that by (induction sp) simp_all
  from assms(2) obtain c sp where sep: "sep = c # sp" by (cases sep) auto
  with assms(1) have "isspace c" and "\<forall>c\<in>set sp. isspace c" by simp_all
  then show ?thesis using assms(3) by (simp add: sep skip)
qed

lemma split_whitespace_join:
  assumes words: "\<forall>w\<in>set ws. w \<noteq> [] \<and> (\<forall>c\<in>set w. \<not> isspace c)"
      and sep: "sep \<noteq> []" "\<forall>c\<in>set sep. isspace c"
  shows "split_whitespace (join sep ws) = ws"
proof -
  have "split_words [] (join sep ws) = ws"
    using words
  proof (induction ws)
    case Nil
    show ?case by simp
  next
    case (Cons x ws)
    have x: "x \<noteq> []" "\<forall>c\<in>set x. \<not> isspace c" using Cons.prems by simp_all
    show ?case
    proof (cases ws)
      case Nil
      have "split_words [] (x @ []) = split_words ([] @ x) []"
        using x(2) by (rule split_words_word)
      with x(1) Nil show ?thesis by simp
    next
      case (Cons y ys)
      have IH: "split_words [] (join sep ws) = ws"
        using Cons.IH Cons.prems by simp
      have "split_words [] (x @ (sep @ join sep ws))
              = split_words ([] @ x) (sep @ join sep ws)"
        using x(2) by (rule split_words_word)
      also have "\<dots> = x # split_words [] (join sep ws)"
        using split_words_separator [OF sep(2) sep(1), of x] x(1) by simp
      finally show ?thesis using IH Cons by simp
    qed
  qed
  then show ?thesis by (simp add: split_whitespace_def)
qed

lemma instruction_keywords_join:
  assumes "\<forall>w\<in>set ws. w \<noteq> [] \<and> (\<forall>c\<in>set w. \<not> isspace c)"
      and "sep \<noteq> []" and "\<forall>c\<in>set sep. isspace c"
  shows "instruction_keywords (join sep ws) = map (\<lambda>w. strip CHR ''.'' (lower w)) ws"
  by (simp add: instruction_keywords_def split_whitespace_join [OF assms])

lemma open_keywords:
  "instruction_keywords (''Open  the'' @ [CHR 0x09] @ ''..Fridge.'')
     = [''open'', ''the'', ''fridge'']"
  by code_simp

lemma clean_keywords:
  "instruction_keywords ''clean kitchen counter'' = [''clean'', ''kitchen'', ''counter'']"
  by code_simp

lemma clean_hits:
  "keyword_hits ''kitchen_counter_0'' [''clean'', ''kitchen'', ''counter''] = 0"
  "keyword_hits ''hall_0'' [''clean'', ''kitchen'', ''counter''] = 0"
  by (simp_all add: keyword_hits_def example_phrases)

lemma phrase_in_instruction: "contains ''kitchen counter'' ''clean kitchen counter''"
  by simp

text \<open>
  Claim C6. The relevance score of a room counts the pairs of an identifier of the room
  (its own id, the ids of its receptacles, the ids of its objects) and an instruction
  keyword such that the identifier's phrase occurs inside that one keyword; the phrase is
  the id without its last token, the remaining tokens joined by spaces. The keywords are
  the words of the instruction, one by one, in lower case and with the dots at their ends
  removed: an instruction made of words joined by whitespace has exactly these words as
  keywords. A phrase of two words occurs in no single keyword: \<open>kitchen counter\<close> occurs
  in the instruction \<open>clean kitchen counter\<close> and scores nothing. The containment is never
  tested the other way round: the keyword \<open>counter\<close> occurs in the phrase
  \<open>kitchen counter\<close> and scores nothing. For the instruction
  \<open>put the apple in the fridge\<close>, a room \<open>kitchen_0\<close> whose only child is the receptacle
  \<open>fridge_0\<close> scores exactly 1, from \<open>fridge\<close>; \<open>kitchen\<close> occurs in no keyword.
\<close>

theorem relevance_score_phrase_in_keyword:
  "relevance_score r (instruction_keywords instr)
     = substring_match_count (entity_ids r) (instruction_keywords instr)
   \<and> ((\<forall>w\<in>set ws. w \<noteq> [] \<and> (\<forall>c\<in>set w. \<not> isspace c))
        \<and> sep \<noteq> [] \<and> (\<forall>c\<in>set sep. isspace c)
        \<longrightarrow> instruction_keywords (join sep ws) = map (\<lambda>w. strip CHR ''.'' (lower w)) ws
            \<and> relevance_score r (instruction_keywords (join sep ws))
                = substring_match_count (entity_ids r)
                    (map (\<lambda>w. strip CHR ''.'' (lower w)) ws))
   \<and> instruction_keywords (''Open  the'' @ [CHR 0x09] @ ''..Fridge.'')
       = [''open'', ''the'', ''fridge'']
   \<and> (room_id r = ''kitchen_0'' \<and> map receptacle_id (receptacles r) = [''fridge_0'']
        \<and> objects r = None
        \<longrightarrow> relevance_score r (instruction_keywords ''put the apple in the fridge'') = 1)
   \<and> keyword_hits ''fridge_0'' (instruction_keywords ''put the apple in the fridge'') = 1
   \<and> keyword_hits ''kitchen_0'' (instruction_keywords ''put the apple in the fridge'') = 0
   \<and> (\<forall>keyword\<in>set (instruction_keywords ''put the apple in the fridge'').
         \<not> sublist (id_phrase ''kitchen_0'') keyword)
   \<and> sublist (id_phrase ''kitchen_counter_0'') ''clean kitchen counter''
   \<and> keyword_hits ''kitchen_counter_0'' (instruction_keywords ''clean kitchen counter'') = 0
   \<and> (room_id r = ''hall_0'' \<and> map receptacle_id (receptacles r) = [''kitchen_counter_0'']
        \<and> objects r = None
        \<longrightarrow> relevance_score r (instruction_keywords ''clean kitchen counter'') = 0)
   \<and> sublist ''counter'' (id_phrase ''kitchen_counter_0'')
   \<and> keyword_hits ''kitchen_counter_0'' (instruction_keywords ''Wipe the counter.'') = 0"
proof (intro conjI impI)
  show "relevance_score r (instruction_keywords instr)
          = substring_match_count (entity_ids r) (instruction_keywords instr)"
    by (rule relevance_score_count)
next
  assume h: "(\<forall>w\<in>set ws. w \<noteq> [] \<and> (\<forall>c\<in>set w. \<not> isspace c))
               \<and> sep \<noteq> [] \<and> (\<forall>c\<in>set sep. isspace c)"
  then show keys: "instruction_keywords (join sep ws)
                     = map (\<lambda>w. strip CHR ''.'' (lower w)) ws"
    by (intro instruction_keywords_join) blast+
  show "relevance_score r (instruction_keywords (join sep ws))
          = substring_match_count (entity_ids r) (map (\<lambda>w. strip CHR ''.'' (lower w)) ws)"
    unfolding keys by (rule relevance_score_count)
next
  show "instruction_keywords (''Open  the'' @ [CHR 0x09] @ ''..Fridge.'')
          = [''open'', ''the'', ''fridge'']"
    by (rule open_keywords)
next
  assume "room_id r = ''kitchen_0'' \<and> map receptacle_id (receptacles r) = [''fridge_0'']
            \<and> objects r = None"
  then show "relevance_score r (instruction_keywords ''put the apple in the fridge'') = 1"
    by (simp add: score_no_objects fridge_keywords fridge_hits)
next
  show "keyword_hits ''fridge_0'' (instruction_keywords ''put the apple in the fridge'') = 1"
    by (simp add: fridge_keywords fridge_hits)
next
  show "keyword_hits ''kitchen_0'' (instruction_keywords ''put the apple in the fridge'') = 0"
    by (simp add: fridge_keywords fridge_hits)
next
  have "keyword_hits ''kitchen_0'' (instruction_keywords ''put the apple in the fridge'') = 0"
    by (simp add: fridge_keywords fridge_hits)
  then have "filter (\<lambda>k. sublist (id_phrase ''kitchen_0'') k)
               (instruction_keywords ''put the apple in the fridge'') = []"
    by (simp add: keyword_hits_count)
  then show "\<forall>keyword\<in>set (instruction_keywords ''put the apple in the fridge'').
               \<not> sublist (id_phrase ''kitchen_0'') keyword"
    by (simp add: filter_empty_conv)
next
  from phrase_in_instruction
  show "sublist (id_phrase ''kitchen_counter_0'') ''clean kitchen counter''"
    by (simp only: contains_sublist example_phrases)
next
  show "keyword_hits ''kitchen_counter_0'' (instruction_keywords ''clean kitchen counter'') = 0"
    by (simp add: clean_keywords clean_hits)
next
  assume "room_id r = ''hall_0'' \<and> map receptacle_id (receptacles r) = [''kitchen_counter_0'']
            \<and> objects r = None"
  then show "relevance_score r (instruction_keywords ''clean kitchen counter'') = 0"
    by (simp add: score_no_objects clean_keywords clean_hits)
next
  have "contains ''counter'' ''kitchen counter''" by simp
  then show "sublist ''counter'' (id_phrase ''kitchen_counter_0'')"
    by (simp only: contains_sublist example_phrases)
next
  show "keyword_hits ''kitchen_counter_0'' (instruction_keywords ''Wipe the counter.'') = 0"
    by (simp add: counter_keywords keyword_hits_def example_phrases)
qed

lemma fridge_instruction_words:
  "join '' '' [''put'', ''the'', ''apple'', ''in'', ''the'', ''fridge'']
     = ''put the apple in the fridge''"
  by simp

theorem relevance_score_phrase_in_keyword_witness:
  "room_id example_kitchen = ''kitchen_0''
   \<and> map receptacle_id (receptacles example_kitchen) = [''fridge_0'']
   \<and> objects example_kitchen = None
   \<and> relevance_score example_kitchen (instruction_keywords ''put the apple in the fridge'') = 1
   \<and> substring_match_count (entity_ids example_kitchen)
        (instruction_keywords ''put the apple in the fridge'') = 1
   \<and> join '' '' [''put'', ''the'', ''apple'', ''in'', ''the'', ''fridge'']
       = ''put the apple in the fridge''
   \<and> instruction_keywords ''put the apple in the fridge''
       = [''put'', ''the'', ''apple'', ''in'', ''the'', ''fridge'']
   \<and> substring_match_count (entity_ids example_kitchen)
        [''put'', ''the'', ''apple'', ''in'', ''the'', ''fridge''] = 1"
proof -
  have words: "\<forall>w\<in>set [''put'', ''the'', ''apple'', ''in'', ''the'', ''fridge''].
                 w \<noteq> [] \<and> (\<forall>c\<in>set w. \<not> isspace c)"
    by (simp add: isspace_def)
  have sep: "'' '' \<noteq> [] \<and> (\<forall>c\<in>set '' ''. isspace c)"
    by (simp add: isspace_def)
  have low: "map (\<lambda>w. strip CHR ''.'' (lower w))
               [''put'', ''the'', ''apple'', ''in'', ''the'', ''fridge'']
             = [''put'', ''the'', ''apple'', ''in'', ''the'', ''fridge'']"
    by code_simp
  note inst = relevance_score_phrase_in_keyword
               [of example_kitchen "''put the apple in the fridge''"
                   "[''put'', ''the'', ''apple'', ''in'', ''the'', ''fridge'']" "'' ''"]
  from inst words sep
  have a: "relevance_score example_kitchen
             (instruction_keywords
                (join '' '' [''put'', ''the'', ''apple'', ''in'', ''the'', ''fridge'']))
           = substring_match_count (entity_ids example_kitchen)
               (map (\<lambda>w. strip CHR ''.'' (lower w))
                  [''put'', ''the'', ''apple'', ''in'', ''the'', ''fridge''])"
    by blast
  from inst have b: "relevance_score example_kitchen
                      (instruction_keywords ''put the apple in the fridge'') = 1"
    by (simp add: example_room_fields)
  from inst have c: "relevance_score example_kitchen
                      (instruction_keywords ''put the apple in the fridge'')
                    = substring_match_count (entity_ids example_kitchen)
                        (instruction_keywords ''put the apple in the fridge'')"
    by blast
  from a b c show ?thesis
    unfolding low fridge_instruction_words
    by (simp add: example_room_fields fridge_keywords)
qed

subsection \<open>Arrows\<close>

lemma linalg_norm_zero_iff: "linalg_norm (a, b) = 0 \<longleftrightarrow> a = 0 \<and> b = 0"
  by (simp add: linalg_norm_def sum_power2_eq_zero_iff)

lemma end_tangent_eq:
  "end_tangent (x0, y0) (cx, cy) (x1, y1) = (2 * (x1 - cx), 2 * (y1 - cy))"
  by (simp add: end_tangent_def)

lemma control_point_eq:
  "control_point (x0, y0) (x1, y1)
     = ((x0 + x1) / 2 + (y1 - y0) / 2, (y0 + y1) / 2 + \<bar>x1 - x0\<bar> / 2)"
  by (simp add: control_point_def)

lemma end_tangent_control:
  "end_tangent (x0, y0) (control_point (x0, y0) (x1, y1)) (x1, y1)
     = ((x1 - x0) - (y1 - y0), (y1 - y0) - \<bar>x1 - x0\<bar>)"
  by (simp add: end_tangent_def control_point_def field_simps)

lemma end_tangent_zero_iff:
  "end_tangent (x0, y0) (control_point (x0, y0) (x1, y1)) (x1, y1) = (0, 0)
     \<longleftrightarrow> x1 - x0 = y1 - y0 \<and> 0 \<le> y1 - y0"
  unfolding end_tangent_control by auto

lemma normalize_dir_zero: "normalize_dir (0, 0) = (NaN, NaN)"
  by (simp add: normalize_dir_def np_divide_def linalg_norm_def)

lemma add_arrow_zero_tangent:
  assumes "end_tangent p0 (control_point p0 p1) p1 = (0, 0)"
  shows "add_arrow cfg p0 p1 True
           = [PathPatch p0 (control_point p0 p1) p1, FancyArrow (NaN, NaN) (NaN, NaN)]"
  by (simp add: add_arrow_def Let_def assms normalize_dir_zero)

lemma add_arrow_coinciding:
  "add_arrow cfg (x, y) (x, y) True
     = [PathPatch (x, y) (x, y) (x, y), FancyArrow (NaN, NaN) (NaN, NaN)]"
proof -
  have "end_tangent (x, y) (control_point (x, y) (x, y)) (x, y) = (0, 0)"
    by (simp add: end_tangent_zero_iff)
  then show ?thesis
    by (simp add: add_arrow_zero_tangent control_point_eq)
qed

text \<open>
  Claim C3, as amended. \<open>add_arrow\<close> has no guard around the normalization. For coinciding
  anchors the tangent at the end of the curve is the zero vector, its norm is 0, and the
  division by that norm is carried out: both components of the direction are \<open>0 / 0\<close>,
  that is NaN, the arrowhead patch is still added, and its base and its vector are NaN.
\<close>

theorem add_arrow_coinciding_unguarded:
  "end_tangent (x, y) (control_point (x, y) (x, y)) (x, y) = (0, 0)
   \<and> linalg_norm (end_tangent (x, y) (control_point (x, y) (x, y)) (x, y)) = 0
   \<and> normalize_dir (end_tangent (x, y) (control_point (x, y) (x, y)) (x, y)) = (NaN, NaN)
   \<and> add_arrow cfg (x, y) (x, y) True
       = [PathPatch (x, y) (x, y) (x, y), FancyArrow (NaN, NaN) (NaN, NaN)]"
proof -
  have zero: "end_tangent (x, y) (control_point (x, y) (x, y)) (x, y) = (0, 0)"
    by (simp add: end_tangent_zero_iff)
  show ?thesis
    unfolding zero
    by (simp add: linalg_norm_zero_iff normalize_dir_zero add_arrow_coinciding)
qed

theorem add_arrow_coinciding_unguarded_witness:
  "normalize_dir (end_tangent (5, 7) (control_point (5, 7) (5, 7)) (5, 7)) = (NaN, NaN)
   \<and> add_arrow example_arrow_config (5, 7) (5, 7) True
       = [PathPatch (5, 7) (5, 7) (5, 7), FancyArrow (NaN, NaN) (NaN, NaN)]"
  using add_arrow_coinciding_unguarded [of 5 7 example_arrow_config] by blast

theorem add_arrow_guard_counterexample:
  "linalg_norm (end_tangent (2, 3) (control_point (2, 3) (2, 3)) (2, 3)) = 0
   \<and> add_arrow example_arrow_config (2, 3) (2, 3) True
       = [PathPatch (2, 3) (2, 3) (2, 3), FancyArrow (NaN, NaN) (NaN, NaN)]"
proof -
  have "end_tangent (2, 3) (control_point (2, 3) (2, 3)) (2, 3) = (0, 0)"
    by (simp add: end_tangent_zero_iff)
  then show ?thesis
    by (simp add: linalg_norm_zero_iff add_arrow_coinciding)
qed

lemma round64_zero [simp]: "round64 0 = Finite 0"
  by (simp add: round64_def)















subsection \<open>The row of receptacles\<close>

lemma receptacle_row_total:
  "\<exists>spacing placed. receptacle_row ev r position tw = Inr (spacing, placed)"
  by (simp add: receptacle_row_def Let_def truediv_def)

lemma recep_width_plot [simp]: "recep_width (Receptacle_plot ev rc p) = recep_width rc"
  by (simp add: Receptacle_plot_def)

lemma plotted_at_plot [simp]: "plotted_at (Receptacle_plot ev rc p) = Some p"
  by (simp add: Receptacle_plot_def)

lemma length_place_receptacles [simp]:
  "length (place_receptacles ev sp y off rcs) = length rcs"
  by (induction rcs arbitrary: off) (simp_all add: Let_def)

lemma widths_place_receptacles [simp]:
  "map recep_width (place_receptacles ev sp y off rcs) = map recep_width rcs"
  by (induction rcs arbitrary: off) (simp_all add: Let_def)

lemma place_receptacles_nth:
  "i < length rcs \<Longrightarrow>
     plotted_at (place_receptacles ev sp y off rcs ! i)
       = Some (off + sum_list (map (\<lambda>rc. recep_width rc + sp) (take i rcs)), y)"
proof (induction rcs arbitrary: off i)
  case Nil
  then show ?case by simp
next
  case (Cons rc rcs)
  show ?case
  proof (cases i)
    case 0
    then show ?thesis by (simp add: Let_def)
  next
    case (Suc j)
    with Cons.prems have "j < length rcs" by simp
    from Cons.IH [OF this] Suc show ?thesis
      by (simp add: Let_def algebra_simps)
  qed
qed

lemma place_receptacles_step:
  assumes "Suc i < length rcs"
  shows "\<exists>x. plotted_at (place_receptacles ev sp y off rcs ! i) = Some (x, y)
           \<and> plotted_at (place_receptacles ev sp y off rcs ! Suc i)
               = Some (x + recep_width (rcs ! i) + sp, y)"
proof -
  from assms have i: "i < length rcs" by simp
  have "sum_list (map (\<lambda>rc. recep_width rc + sp) (take (Suc i) rcs))
          = sum_list (map (\<lambda>rc. recep_width rc + sp) (take i rcs)) + (recep_width (rcs ! i) + sp)"
    using i by (simp add: take_Suc_conv_app_nth)
  then show ?thesis
    using place_receptacles_nth [OF assms, of ev sp y off]
          place_receptacles_nth [OF i, of ev sp y off]
    by (simp add: algebra_simps)
qed

lemma Room_plot_receptacles:
  assumes "Room_plot ev r position tw = Inr r'"
      and "receptacle_row ev r position tw = Inr (spacing, placed)"
  shows "receptacles r' = placed \<and> room_width r' = plot_room_width r tw"
  using assms
  by (auto simp: Room_plot_def Let_def split: sum.splits if_splits)

text \<open>
  Claim C2. \<open>Room.plot\<close> places the receptacles in one row. The spacing is
  \<open>(room_width - 2 * fraction * room_width - sum of the receptacle widths) / (count + 1)\<close>;
  the division never raises. The first receptacle starts at the left content edge of the
  room plus \<open>spacing + fraction * room_width\<close>, every further one at the right edge of its
  predecessor plus the spacing, all at the same height. The spacing is not clamped: it is
  negative exactly when the receptacles are wider than the room width left by the two
  margins, in particular when they are wider than the room (for a fraction and a room
  width that are not negative), and the positions are computed all the same.
\<close>

theorem receptacle_row_even_spacing:
  fixes ev :: env and r :: room and position :: point and tw :: "real option"
  defines "rw \<equiv> plot_room_width r tw"
      and "f \<equiv> receptacle_horizontal_margin_fraction (config r)"
      and "widths \<equiv> sum_list (map recep_width (receptacles r))"
      and "n \<equiv> length (receptacles r)"
      and "room_left \<equiv> fst position + horizontal_margin (config r)"
      and "y \<equiv> snd position + vertical_margin (config r) + bottom_pad (config r)"
  defines "spacing \<equiv> (rw - 2 * f * rw - widths) / (real n + 1)"
  shows "\<exists>placed.
           receptacle_row ev r position tw = Inr (spacing, placed)
         \<and> length placed = n
         \<and> (0 < n \<longrightarrow> plotted_at (placed ! 0) = Some (room_left + spacing + f * rw, y))
         \<and> (\<forall>i. Suc i < n \<longrightarrow>
               (\<exists>x. plotted_at (placed ! i) = Some (x, y)
                    \<and> plotted_at (placed ! Suc i)
                        = Some (x + recep_width (receptacles r ! i) + spacing, y)))
         \<and> (spacing < 0 \<longleftrightarrow> rw - 2 * f * rw < widths)
         \<and> (0 \<le> f \<and> 0 \<le> rw \<and> rw < widths \<longrightarrow> spacing < 0)
         \<and> (\<forall>r'. Room_plot ev r position tw = Inr r' \<longrightarrow>
                    receptacles r' = placed \<and> room_width r' = rw)"
proof -
  define placed where
    "placed = place_receptacles ev spacing y (room_left + spacing + f * rw) (receptacles r)"
  have pos: "0 < real n + 1" by simp
  have run: "receptacle_row ev r position tw = Inr (spacing, placed)"
    unfolding placed_def spacing_def rw_def f_def widths_def n_def room_left_def y_def
    by (simp add: receptacle_row_def Let_def truediv_def algebra_simps)
  have len: "length placed = n"
    by (simp add: placed_def n_def)
  have first: "0 < n \<longrightarrow> plotted_at (placed ! 0) = Some (room_left + spacing + f * rw, y)"
    unfolding placed_def n_def using place_receptacles_nth [of 0 "receptacles r"] by simp
  have step: "\<forall>i. Suc i < n \<longrightarrow>
               (\<exists>x. plotted_at (placed ! i) = Some (x, y)
                    \<and> plotted_at (placed ! Suc i)
                        = Some (x + recep_width (receptacles r ! i) + spacing, y))"
    unfolding placed_def n_def using place_receptacles_step by blast
  have neg: "spacing < 0 \<longleftrightarrow> rw - 2 * f * rw < widths"
    unfolding spacing_def using pos by (simp add: divide_less_0_iff)
  have wide: "0 \<le> f \<and> 0 \<le> rw \<and> rw < widths \<longrightarrow> spacing < 0"
  proof
    assume h: "0 \<le> f \<and> 0 \<le> rw \<and> rw < widths"
    then have "0 \<le> 2 * f * rw" by simp
    with h have "rw - 2 * f * rw < widths" by linarith
    then show "spacing < 0" by (simp only: neg)
  qed
  have room: "\<forall>r'. Room_plot ev r position tw = Inr r' \<longrightarrow>
                    receptacles r' = placed \<and> room_width r' = rw"
    unfolding rw_def using Room_plot_receptacles [OF _ run] by blast
  from run len first step neg wide room show ?thesis by blast
qed

lemma example_kitchen_row:
  "plot_room_width example_kitchen None = 190"
  "receptacle_horizontal_margin_fraction (config example_kitchen) = 1 / 10"
  "map recep_width (receptacles example_kitchen) = [180]"
  "length (receptacles example_kitchen) = 1"
  "horizontal_margin (config example_kitchen) = 5"
  "vertical_margin (config example_kitchen) = 5"
  "bottom_pad (config example_kitchen) = 10"
  by (simp_all add: plot_room_width_def has_objects_def example_kitchen_def Room_def
        init_size_def Let_def example_room_config_def example_receptacle_def)

lemma cramped_kitchen_row:
  "plot_room_width cramped_kitchen None = 140"
  "receptacle_horizontal_margin_fraction (config cramped_kitchen) = 1 / 10"
  "map recep_width (receptacles cramped_kitchen) = [180]"
  "length (receptacles cramped_kitchen) = 1"
  by (simp_all add: plot_room_width_def has_objects_def cramped_kitchen_def Room_def
        init_size_def Let_def example_room_config_def cramped_room_config_def
        example_receptacle_def)

theorem receptacle_row_even_spacing_witness:
  "(\<exists>placed. receptacle_row example_env example_kitchen (0, 0) None = Inr (- 14, placed)
            \<and> length placed = 1
            \<and> plotted_at (placed ! 0) = Some (10, 15))
   \<and> (\<exists>placed. receptacle_row example_env cramped_kitchen (0, 0) None = Inr (- 34, placed)
            \<and> (140 :: real) < 180)"
  using receptacle_row_even_spacing [of example_env example_kitchen "(0, 0)" None]
        receptacle_row_even_spacing [of example_env cramped_kitchen "(0, 0)" None]
  by (simp add: example_kitchen_row cramped_kitchen_row) blast

subsection \<open>Idempotence of Room.plot\<close>

lemma Object_plot_Inr:
  assumes "Object_plot ev ob p = Inr ob'"
  shows "ob' = ob\<lparr>obj_center_position :=
                     Some (fst p + object_width (obj_config ob) / 2,
                           snd p + object_height (obj_config ob) / 2)\<rparr>"
  using assms
  by (auto simp: Object_plot_def Let_def split: if_splits option.splits)

lemma Object_plot_again:
  assumes "Object_plot ev ob p = Inr ob'"
  shows "Object_plot ev ob' p = Inr ob'"
  using assms
  by (auto simp: Object_plot_def Let_def split: if_splits option.splits)

lemma Object_plot_fields:
  assumes "Object_plot ev ob p = Inr ob'"
  shows "object_id ob' = object_id ob" and "obj_width ob' = obj_width ob"
  using Object_plot_Inr [OF assms] by (simp_all add: obj_width_def)

lemma Receptacle_plot_again:
  "Receptacle_plot ev (Receptacle_plot ev rc p) p = Receptacle_plot ev rc p"
  by (simp add: Receptacle_plot_def)

lemma place_receptacles_again:
  "place_receptacles ev sp y off (place_receptacles ev sp y off rcs)
     = place_receptacles ev sp y off rcs"
  by (induction rcs arbitrary: off) (simp_all add: Let_def Receptacle_plot_again)

lemma mapped_receptacle_cong:
  "object_to_recep r2 = object_to_recep r \<Longrightarrow> object_id ob2 = object_id ob \<Longrightarrow>
     mapped_receptacle r2 ob2 = mapped_receptacle r ob"
  by (simp add: mapped_receptacle_def split: option.splits)

lemma place_objects_Inr:
  assumes "place_objects ev r sp y off obs = Inr obs'"
  shows "map obj_width obs' = map obj_width obs
         \<and> map object_id obs' = map object_id obs
         \<and> (\<forall>ob\<in>set obs. mapped_receptacle r ob = None)"
  using assms
proof (induction obs arbitrary: off obs')
  case Nil
  then show ?case by simp
next
  case (Cons ob obs)
  from Cons.prems obtain ob' rest where
        un: "mapped_receptacle r ob = None"
    and o: "Object_plot ev ob (off, y) = Inr ob'"
    and rec: "place_objects ev r sp y (off + obj_width ob' + sp) obs = Inr rest"
    and res: "obs' = ob' # rest"
    by (auto split: option.splits sum.splits)
  from Cons.IH [OF rec] Object_plot_fields [OF o] un res show ?case by simp
qed

lemma place_objects_again:
  assumes "place_objects ev r sp y off obs = Inr obs'"
      and "object_to_recep r2 = object_to_recep r"
  shows "place_objects ev r2 sp y off obs' = Inr obs'"
  using assms(1)
proof (induction obs arbitrary: off obs')
  case Nil
  then show ?case by simp
next
  case (Cons ob obs)
  from Cons.prems obtain ob' rest where
        un: "mapped_receptacle r ob = None"
    and o: "Object_plot ev ob (off, y) = Inr ob'"
    and rec: "place_objects ev r sp y (off + obj_width ob' + sp) obs = Inr rest"
    and res: "obs' = ob' # rest"
    by (auto split: option.splits sum.splits)
  have un': "mapped_receptacle r2 ob' = None"
    using un mapped_receptacle_cong [OF assms(2) Object_plot_fields(1) [OF o]] by simp
  show ?case
    unfolding res
    by (simp add: un' Object_plot_again [OF o] Cons.IH [OF rec])
qed

lemma unmapped_all:
  assumes "objects r = Some obs" and "\<forall>ob\<in>set obs. mapped_receptacle r ob = None"
  shows "unmapped_objects r = obs"
  using assms by (simp add: unmapped_objects_def)

lemma plot_room_width_replay:
  assumes "config r2 = config r" and "has_objects r2 = has_objects r"
      and "map obj_width (unmapped_objects r2) = map obj_width (unmapped_objects r)"
      and "map recep_width (receptacles r2) = map recep_width (receptacles r)"
  shows "plot_room_width r2 tw = plot_room_width r tw"
  unfolding plot_room_width_def Let_def assms ..

lemma receptacle_row_Inr:
  "receptacle_row ev r position tw = Inr (sp, placed) \<Longrightarrow>
     sp = (plot_room_width r tw
             - receptacle_horizontal_margin_fraction (config r) * 2 * plot_room_width r tw
             - sum_list (map recep_width (receptacles r)))
          / real (length (receptacles r) + 1)
     \<and> placed = place_receptacles ev sp
                  (snd position + vertical_margin (config r) + bottom_pad (config r))
                  (fst position + horizontal_margin (config r) + sp
                     + receptacle_horizontal_margin_fraction (config r) * plot_room_width r tw)
                  (receptacles r)"
  by (auto simp: receptacle_row_def Let_def truediv_def split: if_splits)

lemma receptacle_row_replay:
  assumes row: "receptacle_row ev r position tw = Inr (sp, placed)"
      and cfg: "config r2 = config r"
      and rw: "plot_room_width r2 tw = plot_room_width r tw"
      and rcs: "receptacles r2 = placed"
  shows "receptacle_row ev r2 position tw = Inr (sp, placed)"
proof -
  note char = receptacle_row_Inr [OF row]
  have placed: "placed = place_receptacles ev sp
                  (snd position + vertical_margin (config r) + bottom_pad (config r))
                  (fst position + horizontal_margin (config r) + sp
                     + receptacle_horizontal_margin_fraction (config r) * plot_room_width r tw)
                  (receptacles r)"
    using char by blast
  have widths: "map recep_width placed = map recep_width (receptacles r)"
    by (subst placed) simp
  have len: "length placed = length (receptacles r)"
    by (subst placed) simp
  have sp: "(plot_room_width r tw
             - receptacle_horizontal_margin_fraction (config r) * 2 * plot_room_width r tw
             - sum_list (map recep_width (receptacles r)))
          / real (length (receptacles r) + 1) = sp"
    using char by blast
  have again: "place_receptacles ev sp
                  (snd position + vertical_margin (config r) + bottom_pad (config r))
                  (fst position + horizontal_margin (config r) + sp
                     + receptacle_horizontal_margin_fraction (config r) * plot_room_width r tw)
                  placed = placed"
    by (subst (1 2) placed) (rule place_receptacles_again)
  have d: "real (length (receptacles r) + 1) \<noteq> 0"
    by simp
  show ?thesis
    unfolding receptacle_row_def Let_def truediv_def cfg rw rcs widths len
    by (simp only: d if_False sum.case sp fst_conv snd_conv add.assoc [symmetric] again)
qed

lemma unmapped_objects_cong:
  assumes "objects r2 = objects r" and "object_to_recep r2 = object_to_recep r"
  shows "unmapped_objects r2 = unmapped_objects r"
proof -
  have "mapped_receptacle r2 = mapped_receptacle r"
    by (rule ext) (simp add: mapped_receptacle_def assms(2))
  then show ?thesis
    unfolding unmapped_objects_def assms(1) by (simp only:)
qed

lemma object_row_replay:
  assumes row: "object_row ev r position = Inr obs'"
      and cfg: "config r2 = config r"
      and o2r: "object_to_recep r2 = object_to_recep r"
      and rw: "room_width r2 = room_width r"
      and obs: "objects r2 = Some obs'"
      and has: "has_objects r"
  shows "object_row ev r2 position = Inr obs'"
proof -
  from has obtain obs where objs: "objects r = Some obs"
    by (auto simp: has_objects_def split: option.splits)
  define sp where
    "sp = (room_width r - object_horizontal_margin_fraction (config r) * 2 * room_width r
             - sum_list (map obj_width (unmapped_objects r)))
          / real (length (unmapped_objects r) + 1)"
  define y where
    "y = snd position + vertical_margin (config r) + bottom_pad (config r)
           + full_height (config r) * objects_height (config r)"
  define off where
    "off = fst position + horizontal_margin (config r)
             + object_horizontal_margin_fraction (config r) * room_width r + sp"
  have d: "real (length (unmapped_objects r) + 1) \<noteq> 0" by simp
  have run: "place_objects ev r sp y off obs = Inr obs'"
    using row unfolding object_row_def Let_def truediv_def sp_def y_def off_def objs
    by (simp only: d if_False sum.case fst_conv snd_conv option.case)
  note facts = place_objects_Inr [OF run]
  note again = place_objects_again [OF run o2r]
  have un: "unmapped_objects r = obs"
    using facts objs by (simp add: unmapped_all)
  have un2: "unmapped_objects r2 = obs'"
    using place_objects_Inr [OF again] obs by (simp add: unmapped_all)
  have widths: "map obj_width obs' = map obj_width obs"
    using facts by blast
  have len: "length obs' = length obs"
    using widths by (metis length_map)
  show ?thesis
    unfolding object_row_def Let_def truediv_def cfg rw obs un2 widths len
    using again d
    unfolding sp_def y_def off_def un
    by (simp only: if_False sum.case fst_conv snd_conv option.case)
qed

lemma Room_plot_again:
  assumes "Room_plot ev r position tw = Inr r'"
  shows "Room_plot ev r' position tw = Inr r'"
proof -
  obtain sp placed where row: "receptacle_row ev r position tw = Inr (sp, placed)"
    using receptacle_row_total by blast
  define rw where "rw = plot_room_width r tw"
  define r1 where
    "r1 = r\<lparr>room_width := rw, receptacles := placed,
            width := rw + 2 * horizontal_margin (config r),
            room_height := full_height (config r) + bottom_pad (config r)
                             + top_pad (config r)\<rparr>"
  define centre where
    "centre = (fst position + horizontal_margin (config r) + rw / 2,
               snd position + vertical_margin (config r) + bottom_pad (config r)
                 + (if use_full_height r
                    then placeholder_height_if_full (config r) * full_height (config r)
                    else placeholder_height_if_half (config r) * half_height (config r)))"
  have placed_w: "map recep_width placed = map recep_width (receptacles r)"
    using receptacle_row_Inr [OF row] by (metis widths_place_receptacles)
  show ?thesis
  proof (cases "has_objects r")
    case True
    from assms obtain obs' where
          orow: "object_row ev r1 position = Inr obs'"
      and r': "r' = r1\<lparr>objects := Some obs', center_position := Some centre\<rparr>"
      unfolding Room_plot_def Let_def row r1_def centre_def rw_def
      by (auto simp: True split: sum.splits)
    have has1: "has_objects r1" using True by (simp add: r1_def has_objects_def)
    from has1 obtain obs where objs1: "objects r1 = Some obs"
      by (auto simp: has_objects_def split: option.splits)
    have orow': "object_row ev r' position = Inr obs'"
      by (rule object_row_replay [OF orow _ _ _ _ has1]) (simp_all add: r')
    have cfg: "config r' = config r" and ufh: "use_full_height r' = use_full_height r"
      and rcs: "receptacles r' = placed" and objs': "objects r' = Some obs'"
      and rw': "room_width r' = rw"
      by (simp_all add: r' r1_def)
    have run: "place_objects ev r1
                 ((room_width r1
                    - object_horizontal_margin_fraction (config r1) * 2 * room_width r1
                    - sum_list (map obj_width (unmapped_objects r1)))
                  / real (length (unmapped_objects r1) + 1))
                 (snd position + vertical_margin (config r1) + bottom_pad (config r1)
                    + full_height (config r1) * objects_height (config r1))
                 (fst position + horizontal_margin (config r1)
                    + object_horizontal_margin_fraction (config r1) * room_width r1
                    + (room_width r1
                        - object_horizontal_margin_fraction (config r1) * 2 * room_width r1
                        - sum_list (map obj_width (unmapped_objects r1)))
                      / real (length (unmapped_objects r1) + 1))
                 obs = Inr obs'"
      using orow unfolding object_row_def Let_def truediv_def objs1
      by (simp split: if_splits)
    note facts = place_objects_Inr [OF run]
    have un1: "unmapped_objects r1 = obs"
      using facts objs1 by (simp add: unmapped_all)
    have "unmapped_objects r1 = unmapped_objects r"
      by (rule unmapped_objects_cong) (simp_all add: r1_def)
    then have "unmapped_objects r = obs"
      using un1 by simp
    moreover have "unmapped_objects r' = obs'"
    proof -
      have "place_objects ev r'
                 ((room_width r1
                    - object_horizontal_margin_fraction (config r1) * 2 * room_width r1
                    - sum_list (map obj_width (unmapped_objects r1)))
                  / real (length (unmapped_objects r1) + 1))
                 (snd position + vertical_margin (config r1) + bottom_pad (config r1)
                    + full_height (config r1) * objects_height (config r1))
                 (fst position + horizontal_margin (config r1)
                    + object_horizontal_margin_fraction (config r1) * room_width r1
                    + (room_width r1
                        - object_horizontal_margin_fraction (config r1) * 2 * room_width r1
                        - sum_list (map obj_width (unmapped_objects r1)))
                      / real (length (unmapped_objects r1) + 1))
                 obs' = Inr obs'"
        by (rule place_objects_again [OF run]) (simp add: r')
      from place_objects_Inr [OF this] objs' show ?thesis
        by (simp add: unmapped_all)
    qed
    ultimately have unw: "map obj_width (unmapped_objects r')
                            = map obj_width (unmapped_objects r)"
      using facts by simp
    have has': "has_objects r'"
      using facts objs1 has1 objs'
      by (auto simp: has_objects_def)
    have prw: "plot_room_width r' tw = rw"
      unfolding rw_def
      by (rule plot_room_width_replay) (simp_all add: cfg has' True unw rcs placed_w)
    have row': "receptacle_row ev r' position tw = Inr (sp, placed)"
      by (rule receptacle_row_replay [OF row cfg _ rcs]) (simp add: prw rw_def)
    have same: "r'\<lparr>room_width := rw, receptacles := placed,
                  width := rw + 2 * horizontal_margin (config r),
                  room_height := full_height (config r) + bottom_pad (config r)
                                   + top_pad (config r)\<rparr> = r'"
      by (simp add: r' r1_def)
    show ?thesis
      unfolding Room_plot_def Let_def row' prw cfg ufh
      by (simp add: has' same orow' centre_def [symmetric])
         (simp add: r')
  next
    case False
    from assms have r': "r' = r1\<lparr>room_height :=
                                (if \<not> use_full_height r
                                 then half_height (config r) + bottom_pad (config r)
                                        + top_pad (config r)
                                 else room_height r1),
                              height :=
                                (if \<not> use_full_height r
                                 then half_height (config r) + bottom_pad (config r)
                                        + top_pad (config r)
                                 else room_height r1) + 2 * vertical_margin (config r),
                              center_position := Some centre\<rparr>"
      unfolding Room_plot_def Let_def row r1_def centre_def rw_def
      by (auto simp: False)
    have cfg: "config r' = config r" and ufh: "use_full_height r' = use_full_height r"
      and rcs: "receptacles r' = placed" and objs': "objects r' = objects r"
      by (simp_all add: r' r1_def)
    have has': "has_objects r' = has_objects r"
      by (simp add: has_objects_def objs')
    have un: "unmapped_objects r' = unmapped_objects r"
      by (rule unmapped_objects_cong) (simp_all add: r' r1_def)
    have prw: "plot_room_width r' tw = rw"
      unfolding rw_def
      by (rule plot_room_width_replay) (simp_all add: cfg has' un rcs placed_w)
    have row': "receptacle_row ev r' position tw = Inr (sp, placed)"
      by (rule receptacle_row_replay [OF row cfg _ rcs]) (simp add: prw rw_def)
    show ?thesis
      unfolding Room_plot_def Let_def row' prw cfg ufh
      by (simp add: has' False centre_def [symmetric]) (simp add: r' r1_def)
  qed
qed

text \<open>
  Claim C9. If \<open>Room.plot\<close> returns, a second call with the same position and target
  width returns as well and leaves the room as the first call left it: the centre anchor
  of the room and the centre anchors of its objects are the same.
\<close>

theorem Room_plot_idempotent:
  assumes "Room_plot ev r position tw = Inr r'"
  shows "\<exists>r''. Room_plot ev r' position tw = Inr r''
              \<and> center_position r'' = center_position r'
              \<and> object_centers r'' = object_centers r'
              \<and> r'' = r'"
  using Room_plot_again [OF assms] by simp

lemma example_pantry_plot:
  "\<exists>r'. Room_plot example_env example_pantry (0, 0) (Some 300) = Inr r'
        \<and> center_position r' = Some (150, 65)
        \<and> object_centers r' = [Some (150, 75)]"
  by (simp add: Room_plot_def receptacle_row_def object_row_def plot_room_width_def
        unmapped_objects_def mapped_receptacle_def has_objects_def truediv_def Let_def
        example_pantry_def Room_def init_size_def Object_def Object_plot_def obj_width_def
        example_env_def example_room_config_def example_object_config_def
        example_receptacle_def split_sep_def object_centers_def)

theorem Room_plot_idempotent_witness:
  "\<exists>r'. Room_plot example_env example_pantry (0, 0) (Some 300) = Inr r'
        \<and> Room_plot example_env r' (0, 0) (Some 300) = Inr r'
        \<and> center_position r' = Some (150, 65)
        \<and> object_centers r' = [Some (150, 75)]"
proof -
  from example_pantry_plot obtain r' where
    r': "Room_plot example_env example_pantry (0, 0) (Some 300) = Inr r'"
        "center_position r' = Some (150, 65)" "object_centers r' = [Some (150, 75)]"
    by blast
  from Room_plot_idempotent [OF r'(1)] r' show ?thesis by auto
qed

end
